theory Spec2Isabelle
  imports Complex_Main
begin

section \<open>Data model of app.py\<close>

text \<open>
  The script \<^verbatim>\<open>app.py\<close> is re-executed from top to bottom on every interaction.
  Between two executions only \<^verbatim>\<open>st.session_state\<close> survives. Everything the script
  does besides updating the session state (calls to the remote client, the temporary
  file, \<^verbatim>\<open>time.sleep\<close>, the widgets it draws) is recorded as a list of events, each
  paired with the session state at the moment the effect happens.
\<close>

text \<open>A raised Python exception, with the text that \<^verbatim>\<open>str(e)\<close> yields.\<close>

datatype error = Exception string

text \<open>
  The remote file object: the script reads \<^verbatim>\<open>video_file.name\<close> and
  \<^verbatim>\<open>video_file.state.name\<close> and nothing else of it.
\<close>

record genai_file =
  fname :: string
  state_name :: string

text \<open>An element of the \<^verbatim>\<open>contents=[...]\<close> list of a request.\<close>

datatype content = Media genai_file | Text string | PyNone

text \<open>The object returned by \<^verbatim>\<open>st.file_uploader\<close> when a file is selected.\<close>

record uploaded =
  up_name :: string
  up_bytes :: string

text \<open>
  \<^verbatim>\<open>st.session_state\<close> after the initialisation block (lines 23-28), which gives
  each of the three keys its default when it is absent.
\<close>

record session =
  chat_history :: "(string \<times> string) list"
  processed_video :: "genai_file option"
  current_file_name :: "string option"

definition initial_session :: session where
  "initial_session =
     \<lparr>chat_history = [], processed_video = None, current_file_name = None\<rparr>"

text \<open>
  The widgets whose text reports on an operation; titles, dividers and containers are left
  out. \<open>Status\<close> widgets are the placeholder of \<^verbatim>\<open>process_video\<close>.
\<close>

datatype widget =
    StatusInfo | StatusError | StatusSuccess | StatusEmpty
  | Spinner | StWrite | StError | StWarning | StInfo | SidebarInfo
  | ChatMessage string

datatype event =
    TempCreate string
  | TempWrite string string
  | OsRemove string
  | FilesUpload string
  | FilesGet string
  | Sleep nat
  | CountTokens string "content list"
  | GenerateContent string "content list"
  | Show widget string

text \<open>
  The remote service is not part of the repository. It is a parameter: a state of an
  arbitrary type \<open>'g\<close> and one transition per client method, which answers with a value
  or raises.
\<close>

record 'g gateway =
  files_upload :: "string \<Rightarrow> string \<Rightarrow> 'g \<Rightarrow> (error + genai_file) \<times> 'g"
  files_get :: "string \<Rightarrow> 'g \<Rightarrow> (error + genai_file) \<times> 'g"
  count_tokens :: "string \<Rightarrow> content list \<Rightarrow> 'g \<Rightarrow> (error + int) \<times> 'g"
  generate_content :: "string \<Rightarrow> content list \<Rightarrow> 'g \<Rightarrow> (error + string) \<times> 'g"

text \<open>
  What the operating system does for one \<^verbatim>\<open>NamedTemporaryFile\<close> block: the path it
  picks, and whether creating the file or writing to it raises.
\<close>

record os_env =
  tmp_path :: string
  create_error :: "error option"
  write_error :: "error option"

text \<open>The world outside the session: the remote service and the local files.\<close>

record 'g world =
  remote :: 'g
  fs :: "string \<rightharpoonup> string"

text \<open>
  How a piece of the script ends: it returns, it raises, or (for the poll loop, which has
  no bound) it is still running when the observation stops.
\<close>

datatype 'a outcome = Returned 'a | Raised error | Running

section \<open>process_video\<close>

text \<open>
  Lines 52-54. The first argument bounds the number of iterations that are observed.
  \<^verbatim>\<open>
  while video_file.state.name == "PROCESSING":
      time.sleep(2)
      video_file = client.files.get(name=video_file.name)
  \<close>
\<close>

fun poll :: "nat \<Rightarrow> 'g gateway \<Rightarrow> genai_file \<Rightarrow> 'g \<Rightarrow> genai_file outcome \<times> 'g \<times> event list" where
  "poll 0 gw v g =
     (if state_name v = ''PROCESSING'' then (Running, g, []) else (Returned v, g, []))"
| "poll (Suc n) gw v g =
     (if state_name v = ''PROCESSING'' then
        (case files_get gw (fname v) g of
           (Inl e, g') \<Rightarrow> (Raised e, g', [Sleep 2, FilesGet (fname v)])
         | (Inr v', g') \<Rightarrow>
             (case poll n gw v' g' of
                (r, g'', evs) \<Rightarrow> (r, g'', [Sleep 2, FilesGet (fname v)] @ evs)))
      else (Returned v, g, []))"

text \<open>Lines 44-63, the body of the \<^verbatim>\<open>try\<close>.\<close>

definition try_body ::
  "nat \<Rightarrow> 'g gateway \<Rightarrow> string \<Rightarrow> string \<Rightarrow> 'g \<Rightarrow> (genai_file option) outcome \<times> 'g \<times> event list" where
  "try_body n gw path bytes g =
     (let evs0 = [Show StatusInfo ''Uploading video to Google GenAI...'', FilesUpload path] in
      case files_upload gw path bytes g of
        (Inl e, g1) \<Rightarrow> (Raised e, g1, evs0)
      | (Inr video_file, g1) \<Rightarrow>
          (let evs1 = evs0 @
                 [Show StatusInfo ''Processing video context (this may take a moment)...''] in
           case poll n gw video_file g1 of
             (Running, g2, evs) \<Rightarrow> (Running, g2, evs1 @ evs)
           | (Raised e, g2, evs) \<Rightarrow> (Raised e, g2, evs1 @ evs)
           | (Returned v, g2, evs) \<Rightarrow>
               (if state_name v = ''FAILED'' then
                  (Returned None, g2,
                   evs1 @ evs @ [Show StatusError ''Video processing failed.''])
                else
                  (Returned (Some v), g2,
                   evs1 @ evs @
                   [Show StatusSuccess ''Video processed and ready for analysis!'',
                    Sleep 2, Show StatusEmpty '''']))))"

text \<open>Lines 65-68, the \<^verbatim>\<open>finally\<close> clause.\<close>

definition cleanup :: "string \<Rightarrow> (string \<rightharpoonup> string) \<Rightarrow> (string \<rightharpoonup> string) \<times> event list" where
  "cleanup path f =
     (if f path \<noteq> None then (f(path := None), [OsRemove path]) else (f, []))"

text \<open>
  Lines 32-68. The \<^verbatim>\<open>with\<close> block of lines 39-41 creates the file with
  \<^verbatim>\<open>delete=False\<close> and writes the uploaded bytes; the \<^verbatim>\<open>try\<close> starts after it. The
  \<^verbatim>\<open>finally\<close> clause runs when the body returns or raises, not while it is running.
\<close>

definition process_video ::
  "nat \<Rightarrow> 'g gateway \<Rightarrow> os_env \<Rightarrow> uploaded \<Rightarrow> 'g world \<Rightarrow>
     (genai_file option) outcome \<times> 'g world \<times> event list" where
  "process_video n gw env uploaded_file w =
     (case create_error env of
        Some e \<Rightarrow> (Raised e, w, [])
      | None \<Rightarrow>
          (let tmp_file_path = tmp_path env;
               w1 = w\<lparr>fs := (fs w)(tmp_file_path \<mapsto> [])\<rparr>;
               evs1 = [TempCreate tmp_file_path] in
           case write_error env of
             Some e \<Rightarrow> (Raised e, w1, evs1)
           | None \<Rightarrow>
               (let w2 = w1\<lparr>fs := (fs w1)(tmp_file_path \<mapsto> up_bytes uploaded_file)\<rparr>;
                    evs2 = evs1 @ [TempWrite tmp_file_path (up_bytes uploaded_file)] in
                case try_body n gw tmp_file_path (up_bytes uploaded_file) (remote w2) of
                  (Running, g, evs) \<Rightarrow> (Running, w2\<lparr>remote := g\<rparr>, evs2 @ evs)
                | (r, g, evs) \<Rightarrow>
                    (case cleanup tmp_file_path (fs w2) of
                       (f, evs3) \<Rightarrow> (r, \<lparr>remote = g, fs = f\<rparr>, evs2 @ evs @ evs3)))))"

section \<open>Numbers as the script displays them\<close>

text \<open>
  \<^verbatim>\<open>total_tokens / 263\<close> is Python's true division of two integers: the result is the
  binary64 number nearest to the exact quotient, ties going to the even significand,
  and \<^verbatim>\<open>OverflowError\<close> when that number is out of range. A binary64 number is
  represented by its exact rational value.
\<close>

definition round_half_even :: "rat \<Rightarrow> int" where
  "round_half_even q =
     (let f = \<lfloor>q\<rfloor>; r = q - of_int f
      in if r < 1 / 2 then f else if 1 / 2 < r then f + 1 else if even f then f else f + 1)"

fun bit_length :: "nat \<Rightarrow> nat" where
  "bit_length n = (if n = 0 then 0 else Suc (bit_length (n div 2)))"

text \<open>For \<open>0 < q\<close>, the exponent \<open>e\<close> with \<open>2 powi e \<le> q < 2 powi (e + 1)\<close>.\<close>

definition binary_exponent :: "rat \<Rightarrow> int" where
  "binary_exponent q =
     (case quotient_of q of (a, b) \<Rightarrow>
        (let e0 = int (bit_length (nat a)) - int (bit_length (nat b))
         in if 2 powi e0 \<le> q then e0 else e0 - 1))"

definition float_of_rat :: "rat \<Rightarrow> error + rat" where
  "float_of_rat q =
     (if q = 0 then Inr 0
      else
        (let a = \<bar>q\<bar>;
             e = max (binary_exponent a) (- 1022);
             u = 2 powi (e - 52);
             d = of_int (round_half_even (a / u)) * u
         in if 2 powi 1024 \<le> d
            then Inl (Exception ''integer division result too large for a float'')
            else Inr (sgn q * d)))"

definition true_div :: "int \<Rightarrow> int \<Rightarrow> error + rat" where
  "true_div a b =
     (if b = 0 then Inl (Exception ''division by zero'')
      else float_of_rat (of_int a / of_int b))"

text \<open>Line 111.\<close>

definition est_seconds :: "int \<Rightarrow> error + rat" where
  "est_seconds total_tokens = true_div total_tokens 263"

definition digit_char :: "nat \<Rightarrow> char" where
  "digit_char d = ''0123456789'' ! d"

fun decimal :: "nat \<Rightarrow> string" where
  "decimal n = (if n < 10 then [digit_char n] else decimal (n div 10) @ [digit_char (n mod 10)])"

text \<open>The format \<^verbatim>\<open>{:,}\<close> of an integer (line 107).\<close>

fun grouped :: "nat \<Rightarrow> string" where
  "grouped n =
     (if n < 1000 then decimal n
      else grouped (n div 1000) @ '','' @
           [digit_char (n mod 1000 div 100), digit_char (n mod 100 div 10), digit_char (n mod 10)])"

definition format_commas :: "int \<Rightarrow> string" where
  "format_commas i = (if i < 0 then ''-'' @ grouped (nat (- i)) else grouped (nat i))"

text \<open>
  The format \<^verbatim>\<open>{:.2f}\<close> of a binary64 number (line 112): its exact value rounded to
  two decimals, ties to even.
\<close>

definition format_2f :: "rat \<Rightarrow> string" where
  "format_2f d =
     (let n = nat (round_half_even (\<bar>d\<bar> * 100))
      in (if d < 0 then ''-'' else '''') @ decimal (n div 100) @ ''.'' @
         [digit_char (n mod 100 div 10), digit_char (n mod 10)])"

section \<open>The script\<close>

text \<open>The values of the widgets and what the operating system does in one execution.\<close>

record inputs =
  api_key :: string
  model_name :: string
  uploaded_file :: "uploaded option"
  vision_clicked :: bool
  user_query :: "string option"
  os :: os_env

text \<open>
  How one execution of the script ends: it reaches its last line, an uncaught exception
  stops it, or it is still inside the poll loop.
\<close>

datatype status = Completed | Aborted error | Blocked

fun str :: "error \<Rightarrow> string" where
  "str (Exception m) = m"

text \<open>\<^verbatim>\<open>st.session_state.processed_video\<close> as an element of a request.\<close>

definition stored_video :: "session \<Rightarrow> content" where
  "stored_video s = (case processed_video s of None \<Rightarrow> PyNone | Some v \<Rightarrow> Media v)"

text \<open>The session state that lines 83-85 leave, whatever it was before.\<close>

definition fresh_session :: "string \<Rightarrow> session" where
  "fresh_session name =
     \<lparr>chat_history = [], processed_video = None, current_file_name = Some name\<rparr>"

text \<open>Lines 79-90. Each event carries the session state in which it happens.\<close>

definition upload_block ::
  "nat \<Rightarrow> 'g gateway \<Rightarrow> os_env \<Rightarrow> uploaded option \<Rightarrow> session \<Rightarrow> 'g world \<Rightarrow>
     status \<times> session \<times> 'g world \<times> (session \<times> event) list" where
  "upload_block n gw env up s w =
     (case up of
        None \<Rightarrow> (Completed, s, w, [])
      | Some f \<Rightarrow>
          (if current_file_name s \<noteq> Some (up_name f) then
             (let s1 = s\<lparr>processed_video := None\<rparr>;
                  s2 = s1\<lparr>chat_history := []\<rparr>;
                  s3 = s2\<lparr>current_file_name := Some (up_name f)\<rparr>;
                  t0 = [(s3, Show Spinner ''Uploading and analyzing video...'')] in
              case process_video n gw env f w of
                (Returned video_object, w', evs) \<Rightarrow>
                  (Completed, s3\<lparr>processed_video := video_object\<rparr>, w', t0 @ map (Pair s3) evs)
              | (Raised e, w', evs) \<Rightarrow> (Aborted e, s3, w', t0 @ map (Pair s3) evs)
              | (Running, w', evs) \<Rightarrow> (Blocked, s3, w', t0 @ map (Pair s3) evs))
           else (Completed, s, w, [])))"

text \<open>Lines 99-115, the token inspector. Every exception is caught.\<close>

definition inspector_block ::
  "'g gateway \<Rightarrow> string \<Rightarrow> session \<Rightarrow> 'g world \<Rightarrow> session \<times> 'g world \<times> (session \<times> event) list" where
  "inspector_block gw model s w =
     (let contents = [stored_video s];
          t0 = [(s, CountTokens model contents)] in
      case count_tokens gw model contents (remote w) of
        (Inl e, g) \<Rightarrow>
          (s, w\<lparr>remote := g\<rparr>, t0 @ [(s, Show StError (''Could not count tokens: '' @ str e))])
      | (Inr total_tokens, g) \<Rightarrow>
          (let t1 = t0 @ [(s, Show StWrite (''**Total Tokens:** '' @ format_commas total_tokens))] in
           case est_seconds total_tokens of
             Inl e \<Rightarrow>
               (s, w\<lparr>remote := g\<rparr>, t1 @ [(s, Show StError (''Could not count tokens: '' @ str e))])
           | Inr secs \<Rightarrow>
               (s, w\<lparr>remote := g\<rparr>,
                t1 @ [(s, Show StWrite
                        (''**Est. Processed Duration:** '' @ format_2f secs @ '' seconds''))])))"

definition vision_prompt :: string where
  "vision_prompt = ''List the timestamps of the start and end of this video. Then describe the visual content of the very first second and the very last second.''"

text \<open>Lines 118-127, the button \<^verbatim>\<open>Check Video Vision\<close>. Nothing catches an exception here.\<close>

definition vision_block ::
  "'g gateway \<Rightarrow> string \<Rightarrow> bool \<Rightarrow> session \<Rightarrow> 'g world \<Rightarrow>
     status \<times> session \<times> 'g world \<times> (session \<times> event) list" where
  "vision_block gw model clicked s w =
     (if clicked then
        (let contents = [stored_video s, Text vision_prompt];
             t0 = [(s, GenerateContent model contents)] in
         case generate_content gw model contents (remote w) of
           (Inl e, g) \<Rightarrow> (Aborted e, s, w\<lparr>remote := g\<rparr>, t0)
         | (Inr text, g) \<Rightarrow> (Completed, s, w\<lparr>remote := g\<rparr>, t0 @ [(s, Show SidebarInfo text)]))
      else (Completed, s, w, []))"

text \<open>Lines 130-132.\<close>

definition display_history :: "session \<Rightarrow> (session \<times> event) list" where
  "display_history s = map (\<lambda>(role, message). (s, Show (ChatMessage role) message)) (chat_history s)"

text \<open>
  Lines 135-160, the chat input. \<^verbatim>\<open>if user_query:\<close> is false for \<^verbatim>\<open>None\<close> and for
  the empty string.
\<close>

definition chat_block ::
  "'g gateway \<Rightarrow> string \<Rightarrow> string option \<Rightarrow> session \<Rightarrow> 'g world \<Rightarrow>
     session \<times> 'g world \<times> (session \<times> event) list" where
  "chat_block gw model query s w =
     (case query of
        None \<Rightarrow> (s, w, [])
      | Some q \<Rightarrow>
          (if q = [] then (s, w, [])
           else
             (let t0 = [(s, Show (ChatMessage ''user'') q)];
                  s1 = s\<lparr>chat_history := chat_history s @ [(''user'', q)]\<rparr>;
                  contents = [stored_video s1, Text q];
                  t1 = t0 @ [(s1, GenerateContent model contents)] in
              case generate_content gw model contents (remote w) of
                (Inr answer, g) \<Rightarrow>
                  (s1\<lparr>chat_history := chat_history s1 @ [(''assistant'', answer)]\<rparr>,
                   w\<lparr>remote := g\<rparr>,
                   t1 @ [(s1, Show (ChatMessage ''assistant'') answer)])
              | (Inl e, g) \<Rightarrow>
                  (s1, w\<lparr>remote := g\<rparr>,
                   t1 @ [(s1, Show StError (''Error generating response: '' @ str e))]))))"

text \<open>Lines 93-165, what follows the upload block once it has completed.\<close>

definition chat_interface ::
  "'g gateway \<Rightarrow> inputs \<Rightarrow> session \<Rightarrow> 'g world \<Rightarrow>
     status \<times> session \<times> 'g world \<times> (session \<times> event) list" where
  "chat_interface gw inp s w =
     (if processed_video s \<noteq> None then
        (case inspector_block gw (model_name inp) s w of
           (s2, w2, t2) \<Rightarrow>
             (case vision_block gw (model_name inp) (vision_clicked inp) s2 w2 of
                (Completed, s3, w3, t3) \<Rightarrow>
                  (case chat_block gw (model_name inp) (user_query inp) s3 w3 of
                     (s4, w4, t4) \<Rightarrow> (Completed, s4, w4, t2 @ t3 @ display_history s3 @ t4))
              | (st, s3, w3, t3) \<Rightarrow> (st, s3, w3, t2 @ t3)))
      else if uploaded_file inp \<noteq> None then
        (Completed, s, w, [(s, Show StWarning ''Video upload failed. Please try again.'')])
      else
        (Completed, s, w, [(s, Show StInfo ''Please upload a video to start chatting.'')]))"

text \<open>
  Lines 73-168, one execution of the script from a session state and a world. The first
  argument bounds the observed iterations of the poll loop.
\<close>

definition run ::
  "nat \<Rightarrow> 'g gateway \<Rightarrow> inputs \<Rightarrow> session \<Rightarrow> 'g world \<Rightarrow>
     status \<times> session \<times> 'g world \<times> (session \<times> event) list" where
  "run n gw inp s w =
     (if api_key inp = [] then
        (Completed, s, w,
         [(s, Show StWarning ''Please enter your Google API Key in the sidebar to proceed.'')])
      else
        (case upload_block n gw (os inp) (uploaded_file inp) s w of
           (Completed, s1, w1, t1) \<Rightarrow>
             (case chat_interface gw inp s1 w1 of
                (st, s2, w2, t2) \<Rightarrow> (st, s2, w2, t1 @ t2))
         | (st, s1, w1, t1) \<Rightarrow> (st, s1, w1, t1)))"

text \<open>
  The session: the script is executed once per interaction, each execution starting from
  the session state and the world the previous one left. An execution that an exception
  stopped has kept the assignments it made before; an execution that is still inside the
  poll loop has no successor.
\<close>

fun runs ::
  "nat \<Rightarrow> 'g gateway \<Rightarrow> inputs list \<Rightarrow> session \<Rightarrow> 'g world \<Rightarrow>
     session \<times> 'g world \<times> (session \<times> event) list" where
  "runs n gw [] s w = (s, w, [])"
| "runs n gw (inp # inps) s w =
     (case run n gw inp s w of
        (Blocked, s1, w1, t1) \<Rightarrow> (s1, w1, t1)
      | (st, s1, w1, t1) \<Rightarrow>
          (case runs n gw inps s1 w1 of (s2, w2, t2) \<Rightarrow> (s2, w2, t1 @ t2)))"

section \<open>Observations on a trace\<close>

fun is_generate :: "event \<Rightarrow> bool" where
  "is_generate (GenerateContent m c) = True"
| "is_generate _ = False"

fun is_remote_call :: "event \<Rightarrow> bool" where
  "is_remote_call (FilesUpload p) = True"
| "is_remote_call (FilesGet n) = True"
| "is_remote_call (CountTokens m c) = True"
| "is_remote_call (GenerateContent m c) = True"
| "is_remote_call _ = False"

text \<open>
  The handle the poll loop holds after \<open>k\<close> fetches, each made because the handle before
  it had the status \<^verbatim>\<open>PROCESSING\<close> and each answered with a handle; \<open>None\<close> when the
  loop makes fewer than \<open>k\<close> such fetches.
\<close>

fun status_after :: "nat \<Rightarrow> 'g gateway \<Rightarrow> genai_file \<Rightarrow> 'g \<Rightarrow> (genai_file \<times> 'g) option" where
  "status_after 0 gw v g = Some (v, g)"
| "status_after (Suc k) gw v g =
     (if state_name v = ''PROCESSING'' then
        (case files_get gw (fname v) g of
           (Inl e, g') \<Rightarrow> None
         | (Inr v', g') \<Rightarrow> status_after k gw v' g')
      else None)"

text \<open>The events of the poll loop: a sleep of 2, then a fetch, any number of times.\<close>

fun sleeps_then_fetches :: "event list \<Rightarrow> bool" where
  "sleeps_then_fetches [] = True"
| "sleeps_then_fetches (Sleep d # FilesGet nm # evs) = (d = 2 \<and> sleeps_then_fetches evs)"
| "sleeps_then_fetches _ = False"

text \<open>An execution in which no file is selected, or the selected file has the given name.\<close>

definition no_new_upload :: "string \<Rightarrow> inputs \<Rightarrow> bool" where
  "no_new_upload name inp =
     (case uploaded_file inp of None \<Rightarrow> True | Some f \<Rightarrow> up_name f = name)"

section \<open>Concrete sessions and remote services\<close>

text \<open>
  A remote service that follows a script: fixed answers to the upload, the token count
  and the generation, and a list of answers to the successive fetches (its state).
\<close>

definition scripted_gateway ::
  "(error + genai_file) \<Rightarrow> (error + int) \<Rightarrow> (error + string) \<Rightarrow> (error + genai_file) list gateway" where
  "scripted_gateway up cnt gen =
     \<lparr>files_upload = (\<lambda>p b g. (up, g)),
      files_get = (\<lambda>nm g. case g of [] \<Rightarrow> (Inl (Exception ''no answer''), []) | r # rs \<Rightarrow> (r, rs)),
      count_tokens = (\<lambda>m c g. (cnt, g)),
      generate_content = (\<lambda>m c g. (gen, g))\<rparr>"

text \<open>A remote service whose files stay in the status \<^verbatim>\<open>PROCESSING\<close> for ever.\<close>

definition stuck_gateway :: "unit gateway" where
  "stuck_gateway =
     \<lparr>files_upload = (\<lambda>p b g. (Inr \<lparr>fname = ''files/v1'', state_name = ''PROCESSING''\<rparr>, g)),
      files_get = (\<lambda>nm g. (Inr \<lparr>fname = nm, state_name = ''PROCESSING''\<rparr>, g)),
      count_tokens = (\<lambda>m c g. (Inr 0, g)),
      generate_content = (\<lambda>m c g. (Inr [], g))\<rparr>"

text \<open>
  A remote service that records, in its state, the contents of every token count and
  generation request it receives.
\<close>

definition recording_gateway :: "(error + string) \<Rightarrow> content list list gateway" where
  "recording_gateway gen =
     \<lparr>files_upload = (\<lambda>p b g. (Inl (Exception ''no upload expected''), g)),
      files_get = (\<lambda>nm g. (Inl (Exception ''no fetch expected''), g)),
      count_tokens = (\<lambda>m c g. (Inr 2630, g @ [c])),
      generate_content = (\<lambda>m c g. (gen, g @ [c]))\<rparr>"

definition file_in :: "string \<Rightarrow> genai_file" where
  "file_in st = \<lparr>fname = ''files/v1'', state_name = st\<rparr>"

definition ready_session :: session where
  "ready_session =
     \<lparr>chat_history = [(''user'', ''What happens at 0:05?''), (''assistant'', ''A door opens.'')],
      processed_video = Some (file_in ''ACTIVE''),
      current_file_name = Some ''a.mp4''\<rparr>"

definition good_os :: os_env where
  "good_os = \<lparr>tmp_path = ''/tmp/tmpa1.mp4'', create_error = None, write_error = None\<rparr>"

definition full_disk_os :: os_env where
  "full_disk_os =
     \<lparr>tmp_path = ''/tmp/tmpa1.mp4'', create_error = None,
      write_error = Some (Exception ''[Errno 28] No space left on device'')\<rparr>"

definition empty_world :: "'g \<Rightarrow> 'g world" where
  "empty_world g = \<lparr>remote = g, fs = Map.empty\<rparr>"

definition file_a :: uploaded where
  "file_a = \<lparr>up_name = ''a.mp4'', up_bytes = ''AAAA''\<rparr>"

definition file_b :: uploaded where
  "file_b = \<lparr>up_name = ''b.mp4'', up_bytes = ''BBBB''\<rparr>"

definition widgets :: "uploaded option \<Rightarrow> bool \<Rightarrow> string option \<Rightarrow> inputs" where
  "widgets up clicked query =
     \<lparr>api_key = ''key'', model_name = ''gemini-1.5-flash'', uploaded_file = up,
      vision_clicked = clicked, user_query = query, os = good_os\<rparr>"

section \<open>The upload block\<close>

text \<open>
  C4. Uploading a file whose name equals the stored name changes nothing, whatever its
  bytes: the upload block returns the session state and the world unchanged and produces
  no event, so neither the transcript nor the handle is reset and \<^verbatim>\<open>process_video\<close> is
  not called.
\<close>

theorem same_name_upload_is_noop:
  "current_file_name s = Some name \<Longrightarrow>
   upload_block n gw env (Some \<lparr>up_name = name, up_bytes = bytes\<rparr>) s w = (Completed, s, w, [])"
  by (simp add: upload_block_def)

theorem same_name_upload_is_noop_witness:
  "current_file_name ready_session = Some ''a.mp4'' \<and>
   upload_block 5 (scripted_gateway (Inr (file_in ''ACTIVE'')) (Inr 0) (Inr [])) good_os
     (Some \<lparr>up_name = ''a.mp4'', up_bytes = ''other bytes''\<rparr>) ready_session (empty_world [])
   = (Completed, ready_session, empty_world [], [])"
proof -
  have h: "current_file_name ready_session = Some ''a.mp4''"
    by (simp add: ready_session_def)
  show ?thesis using h same_name_upload_is_noop [OF h] by simp
qed

lemma reset_is_fresh:
  "s\<lparr>processed_video := None, chat_history := [], current_file_name := Some name\<rparr> =
   fresh_session name"
  by (simp add: fresh_session_def)

lemma upload_block_new_name:
  assumes "current_file_name s \<noteq> Some (up_name f)"
  shows "upload_block n gw env (Some f) s w =
     (case process_video n gw env f w of
        (r, w', evs) \<Rightarrow>
          (case r of Returned v \<Rightarrow> Completed | Raised e \<Rightarrow> Aborted e | Running \<Rightarrow> Blocked,
           case r of Returned v \<Rightarrow> (fresh_session (up_name f))\<lparr>processed_video := v\<rparr>
                   | _ \<Rightarrow> fresh_session (up_name f),
           w',
           map (Pair (fresh_session (up_name f)))
             (Show Spinner ''Uploading and analyzing video...'' # evs)))"
  using assms
  by (simp add: upload_block_def Let_def reset_is_fresh split: prod.splits outcome.splits)

text \<open>
  C3. In a session that holds a handle, uploading a file whose name differs from the
  stored name clears the handle and the transcript and stores the new name before
  \<^verbatim>\<open>process_video\<close> starts: every event of the ingestion, from the first one on,
  happens in the session state with no handle, an empty transcript and the new name.
  When the block is left, the transcript is empty and the new name is stored.
\<close>

theorem new_name_upload_resets_first:
  assumes "processed_video s = Some h" and "current_file_name s \<noteq> Some (up_name f)"
  shows "(case upload_block n gw env (Some f) s w of
            (st, s', w', t) \<Rightarrow>
              t = map (Pair \<lparr>chat_history = [], processed_video = None,
                             current_file_name = Some (up_name f)\<rparr>)
                    (Show Spinner ''Uploading and analyzing video...'' #
                     snd (snd (process_video n gw env f w))) \<and>
              chat_history s' = [] \<and> current_file_name s' = Some (up_name f) \<and>
              processed_video s' =
                (case fst (process_video n gw env f w) of Returned v \<Rightarrow> v | _ \<Rightarrow> None))"
  using assms(2)
  by (simp add: upload_block_new_name fresh_session_def split: prod.splits outcome.splits)


theorem new_name_upload_resets_first_witness:
  "processed_video ready_session = Some (file_in ''ACTIVE'') \<and>
   current_file_name ready_session \<noteq> Some (up_name file_b) \<and>
   upload_block 5 (scripted_gateway (Inr (file_in ''PROCESSING'')) (Inr 0) (Inr [])) good_os
     (Some file_b) ready_session (empty_world [Inr (file_in ''ACTIVE'')]) =
   (Completed,
    \<lparr>chat_history = [], processed_video = Some (file_in ''ACTIVE''),
     current_file_name = Some ''b.mp4''\<rparr>,
    empty_world [],
    map (Pair \<lparr>chat_history = [], processed_video = None, current_file_name = Some ''b.mp4''\<rparr>)
      [Show Spinner ''Uploading and analyzing video...'',
       TempCreate ''/tmp/tmpa1.mp4'',
       TempWrite ''/tmp/tmpa1.mp4'' ''BBBB'',
       Show StatusInfo ''Uploading video to Google GenAI...'',
       FilesUpload ''/tmp/tmpa1.mp4'',
       Show StatusInfo ''Processing video context (this may take a moment)...'',
       Sleep 2,
       FilesGet ''files/v1'',
       Show StatusSuccess ''Video processed and ready for analysis!'',
       Sleep 2,
       Show StatusEmpty '''',
       OsRemove ''/tmp/tmpa1.mp4''])"
proof -
  have h1: "processed_video ready_session = Some (file_in ''ACTIVE'')"
    by (simp add: ready_session_def)
  have h2: "current_file_name ready_session \<noteq> Some (up_name file_b)"
    by (simp add: ready_session_def file_b_def)
  have nm: "up_name file_b = ''b.mp4''" by (simp add: file_b_def)
  have pv: "process_video 5 (scripted_gateway (Inr (file_in ''PROCESSING'')) (Inr 0) (Inr [])) good_os
      file_b (empty_world [Inr (file_in ''ACTIVE'')]) =
    (Returned (Some (file_in ''ACTIVE'')), empty_world [],
      [TempCreate ''/tmp/tmpa1.mp4'',
       TempWrite ''/tmp/tmpa1.mp4'' ''BBBB'',
       Show StatusInfo ''Uploading video to Google GenAI...'',
       FilesUpload ''/tmp/tmpa1.mp4'',
       Show StatusInfo ''Processing video context (this may take a moment)...'',
       Sleep 2,
       FilesGet ''files/v1'',
       Show StatusSuccess ''Video processed and ready for analysis!'',
       Sleep 2,
       Show StatusEmpty '''',
       OsRemove ''/tmp/tmpa1.mp4''])"
    by (simp add: process_video_def try_body_def cleanup_def scripted_gateway_def good_os_def
        file_b_def empty_world_def file_in_def Let_def eval_nat_numeral)
  show ?thesis
    using h1 h2 new_name_upload_resets_first [OF h1 h2, of 5
        "scripted_gateway (Inr (file_in ''PROCESSING'')) (Inr 0) (Inr [])" good_os
        "empty_world [Inr (file_in ''ACTIVE'')]"]
    by (simp add: pv upload_block_new_name fresh_session_def nm)
qed

section \<open>The chat input\<close>

lemma stored_video_after_append:
  "stored_video (s\<lparr>chat_history := xs\<rparr>) = stored_video s"
  by (simp add: stored_video_def)

lemma chat_block_raised:
  assumes "q \<noteq> []"
    and "generate_content gw model [stored_video s, Text q] (remote w) = (Inl e, g)"
  shows "chat_block gw model (Some q) s w =
     (s\<lparr>chat_history := chat_history s @ [(''user'', q)]\<rparr>,
      w\<lparr>remote := g\<rparr>,
      [(s, Show (ChatMessage ''user'') q),
       (s\<lparr>chat_history := chat_history s @ [(''user'', q)]\<rparr>,
        GenerateContent model [stored_video s, Text q]),
       (s\<lparr>chat_history := chat_history s @ [(''user'', q)]\<rparr>,
        Show StError (''Error generating response: '' @ str e))])"
  using assms by (simp add: chat_block_def Let_def stored_video_after_append)

lemma chat_block_answered:
  assumes "q \<noteq> []"
    and "generate_content gw model [stored_video s, Text q] (remote w) = (Inr answer, g)"
  shows "chat_block gw model (Some q) s w =
     (s\<lparr>chat_history := chat_history s @ [(''user'', q), (''assistant'', answer)]\<rparr>,
      w\<lparr>remote := g\<rparr>,
      [(s, Show (ChatMessage ''user'') q),
       (s\<lparr>chat_history := chat_history s @ [(''user'', q)]\<rparr>,
        GenerateContent model [stored_video s, Text q]),
       (s\<lparr>chat_history := chat_history s @ [(''user'', q)]\<rparr>,
        Show (ChatMessage ''assistant'') answer)])"
  using assms by (simp add: chat_block_def Let_def stored_video_after_append)

lemma inspector_block_world:
  "fst (snd (inspector_block gw m s w)) =
     w\<lparr>remote := snd (count_tokens gw m [stored_video s] (remote w))\<rparr>"
  by (simp add: inspector_block_def Let_def split: prod.splits sum.splits)

lemma inspector_block_session: "fst (inspector_block gw m s w) = s"
  by (simp add: inspector_block_def Let_def split: prod.splits sum.splits)

lemma run_with_query:
  assumes "processed_video s = Some h" and "api_key inp \<noteq> []"
    and "case uploaded_file inp of None \<Rightarrow> True | Some f \<Rightarrow> current_file_name s = Some (up_name f)"
    and "vision_clicked inp = False" and "user_query inp = Some q" and "q \<noteq> []"
  shows "fst (run n gw inp s w) = Completed \<and>
     (s\<lparr>chat_history := chat_history s @ [(''user'', q)]\<rparr>,
      GenerateContent (model_name inp) [Media h, Text q])
       \<in> set (snd (snd (snd (run n gw inp s w)))) \<and>
     remote (fst (snd (snd (run n gw inp s w)))) =
       snd (generate_content gw (model_name inp) [Media h, Text q]
              (snd (count_tokens gw (model_name inp) [Media h] (remote w))))"
proof -
  from assms(3) have ub: "upload_block n gw (os inp) (uploaded_file inp) s w = (Completed, s, w, [])"
    by (simp add: upload_block_def split: option.splits)
  have sv: "stored_video s = Media h" using assms(1) by (simp add: stored_video_def)
  obtain s2 w2 t2 where ib: "inspector_block gw (model_name inp) s w = (s2, w2, t2)"
    by (cases "inspector_block gw (model_name inp) s w") auto
  from inspector_block_session[of gw "model_name inp" s w] ib have s2: "s2 = s" by simp
  from inspector_block_world[of gw "model_name inp" s w] ib sv
  have w2: "w2 = w\<lparr>remote := snd (count_tokens gw (model_name inp) [Media h] (remote w))\<rparr>"
    by simp
  obtain r g where gc: "generate_content gw (model_name inp) [stored_video s, Text q] (remote w2) = (r, g)"
    by (cases "generate_content gw (model_name inp) [stored_video s, Text q] (remote w2)") auto
  have g: "g = snd (generate_content gw (model_name inp) [Media h, Text q]
              (snd (count_tokens gw (model_name inp) [Media h] (remote w))))"
    using gc sv w2 by simp
  show ?thesis
  proof (cases r)
    case (Inl e)
    with gc have "generate_content gw (model_name inp) [stored_video s, Text q] (remote w2) = (Inl e, g)"
      by simp
    from chat_block_raised[OF assms(6) this] assms(1,2,4,5) ub ib s2 sv g show ?thesis
      by (simp add: run_def chat_interface_def vision_block_def)
  next
    case (Inr answer)
    with gc have "generate_content gw (model_name inp) [stored_video s, Text q] (remote w2) = (Inr answer, g)"
      by simp
    from chat_block_answered[OF assms(6) this] assms(1,2,4,5) ub ib s2 sv g show ?thesis
      by (simp add: run_def chat_interface_def vision_block_def)
  qed
qed

text \<open>
  C2. For a query, the chat block appends the user turn and then applies the remote
  generation once, to the stored handle and the query. When that call raises, the whole
  result is determined: the session state left is the one given with the user turn
  appended and nothing else (no assistant turn, the same handle, the same stored name),
  the world is the one that call left, and the call is recorded in the session state
  whose transcript already ends with the user turn. From that state, with the handle
  still stored, a later execution of the script with a further query completes and
  applies the remote generation to the handle and the further query. When the call
  answers, the session state left is the one given with the user turn and then the
  assistant turn holding that answer.
\<close>

theorem failed_ask_keeps_user_turn:
  assumes "q \<noteq> []"
  shows "(\<forall>e g. generate_content gw model [stored_video s, Text q] (remote w) = (Inl e, g) \<longrightarrow>
            chat_block gw model (Some q) s w =
              (s\<lparr>chat_history := chat_history s @ [(''user'', q)]\<rparr>,
               w\<lparr>remote := g\<rparr>,
               [(s, Show (ChatMessage ''user'') q),
                (s\<lparr>chat_history := chat_history s @ [(''user'', q)]\<rparr>,
                 GenerateContent model [stored_video s, Text q]),
                (s\<lparr>chat_history := chat_history s @ [(''user'', q)]\<rparr>,
                 Show StError (''Error generating response: '' @ str e))]) \<and>
            chat_history (fst (chat_block gw model (Some q) s w)) =
              chat_history s @ [(''user'', q)] \<and>
            processed_video (fst (chat_block gw model (Some q) s w)) = processed_video s \<and>
            current_file_name (fst (chat_block gw model (Some q) s w)) = current_file_name s \<and>
            (\<forall>h n (inp2 :: inputs) q2 w2.
               processed_video s = Some h \<longrightarrow> api_key inp2 \<noteq> [] \<longrightarrow>
               (case uploaded_file inp2 of None \<Rightarrow> True
                | Some f \<Rightarrow> current_file_name s = Some (up_name f)) \<longrightarrow>
               vision_clicked inp2 = False \<longrightarrow> user_query inp2 = Some q2 \<longrightarrow> q2 \<noteq> [] \<longrightarrow>
               fst (run n gw inp2 (fst (chat_block gw model (Some q) s w)) w2) = Completed \<and>
               (s\<lparr>chat_history := chat_history s @ [(''user'', q), (''user'', q2)]\<rparr>,
                GenerateContent (model_name inp2) [Media h, Text q2])
                 \<in> set (snd (snd (snd (run n gw inp2 (fst (chat_block gw model (Some q) s w)) w2)))) \<and>
               remote (fst (snd (snd (run n gw inp2 (fst (chat_block gw model (Some q) s w)) w2)))) =
                 snd (generate_content gw (model_name inp2) [Media h, Text q2]
                        (snd (count_tokens gw (model_name inp2) [Media h] (remote w2)))))) \<and>
         (\<forall>answer g. generate_content gw model [stored_video s, Text q] (remote w) = (Inr answer, g) \<longrightarrow>
            chat_block gw model (Some q) s w =
              (s\<lparr>chat_history := chat_history s @ [(''user'', q), (''assistant'', answer)]\<rparr>,
               w\<lparr>remote := g\<rparr>,
               [(s, Show (ChatMessage ''user'') q),
                (s\<lparr>chat_history := chat_history s @ [(''user'', q)]\<rparr>,
                 GenerateContent model [stored_video s, Text q]),
                (s\<lparr>chat_history := chat_history s @ [(''user'', q)]\<rparr>,
                 Show (ChatMessage ''assistant'') answer)]))"
proof (intro conjI allI impI)
  fix e g
  assume gc: "generate_content gw model [stored_video s, Text q] (remote w) = (Inl e, g)"
  note cb = chat_block_raised[OF assms gc]
  show "chat_block gw model (Some q) s w =
              (s\<lparr>chat_history := chat_history s @ [(''user'', q)]\<rparr>,
               w\<lparr>remote := g\<rparr>,
               [(s, Show (ChatMessage ''user'') q),
                (s\<lparr>chat_history := chat_history s @ [(''user'', q)]\<rparr>,
                 GenerateContent model [stored_video s, Text q]),
                (s\<lparr>chat_history := chat_history s @ [(''user'', q)]\<rparr>,
                 Show StError (''Error generating response: '' @ str e))])"
    by (rule cb)
  show "chat_history (fst (chat_block gw model (Some q) s w)) = chat_history s @ [(''user'', q)]"
    by (simp add: cb)
  show "processed_video (fst (chat_block gw model (Some q) s w)) = processed_video s"
    by (simp add: cb)
  show "current_file_name (fst (chat_block gw model (Some q) s w)) = current_file_name s"
    by (simp add: cb)
  fix h n and inp2 :: inputs and q2 and w2 :: "'a world"
  assume a: "processed_video s = Some h" "api_key inp2 \<noteq> []"
    "case uploaded_file inp2 of None \<Rightarrow> True | Some f \<Rightarrow> current_file_name s = Some (up_name f)"
    "vision_clicked inp2 = False" "user_query inp2 = Some q2" "q2 \<noteq> []"
  let ?s1 = "s\<lparr>chat_history := chat_history s @ [(''user'', q)]\<rparr>"
  have s1: "fst (chat_block gw model (Some q) s w) = ?s1" by (simp add: cb)
  have p: "processed_video ?s1 = Some h" using a(1) by simp
  have u: "case uploaded_file inp2 of None \<Rightarrow> True
           | Some f \<Rightarrow> current_file_name ?s1 = Some (up_name f)"
    using a(3) by (simp split: option.splits)
  note rq = run_with_query[OF p a(2) u a(4) a(5) a(6), of n gw w2]
  show "fst (run n gw inp2 (fst (chat_block gw model (Some q) s w)) w2) = Completed"
    using rq by (simp add: s1)
  show "(s\<lparr>chat_history := chat_history s @ [(''user'', q), (''user'', q2)]\<rparr>,
                GenerateContent (model_name inp2) [Media h, Text q2])
                 \<in> set (snd (snd (snd (run n gw inp2 (fst (chat_block gw model (Some q) s w)) w2))))"
    using rq by (simp add: s1)
  show "remote (fst (snd (snd (run n gw inp2 (fst (chat_block gw model (Some q) s w)) w2)))) =
                 snd (generate_content gw (model_name inp2) [Media h, Text q2]
                        (snd (count_tokens gw (model_name inp2) [Media h] (remote w2))))"
    using rq by (simp add: s1)
next
  fix answer g
  assume "generate_content gw model [stored_video s, Text q] (remote w) = (Inr answer, g)"
  then show "chat_block gw model (Some q) s w =
              (s\<lparr>chat_history := chat_history s @ [(''user'', q), (''assistant'', answer)]\<rparr>,
               w\<lparr>remote := g\<rparr>,
               [(s, Show (ChatMessage ''user'') q),
                (s\<lparr>chat_history := chat_history s @ [(''user'', q)]\<rparr>,
                 GenerateContent model [stored_video s, Text q]),
                (s\<lparr>chat_history := chat_history s @ [(''user'', q)]\<rparr>,
                 Show (ChatMessage ''assistant'') answer)])"
    by (rule chat_block_answered[OF assms])
qed

theorem failed_ask_keeps_user_turn_witness:
  "''Who speaks?'' \<noteq> [] \<and>
   generate_content (recording_gateway (Inl (Exception ''503''))) ''gemini-1.5-flash''
     [stored_video ready_session, Text ''Who speaks?''] (remote (empty_world [])) =
     (Inl (Exception ''503''), [[Media (file_in ''ACTIVE''), Text ''Who speaks?'']]) \<and>
   chat_history (fst (chat_block (recording_gateway (Inl (Exception ''503''))) ''gemini-1.5-flash''
     (Some ''Who speaks?'') ready_session (empty_world []))) =
     [(''user'', ''What happens at 0:05?''), (''assistant'', ''A door opens.''),
      (''user'', ''Who speaks?'')] \<and>
   processed_video (fst (chat_block (recording_gateway (Inl (Exception ''503''))) ''gemini-1.5-flash''
     (Some ''Who speaks?'') ready_session (empty_world []))) = Some (file_in ''ACTIVE'') \<and>
   fst (run 5 (recording_gateway (Inl (Exception ''503''))) (widgets (Some file_a) False (Some ''And now?''))
     (fst (chat_block (recording_gateway (Inl (Exception ''503''))) ''gemini-1.5-flash''
        (Some ''Who speaks?'') ready_session (empty_world [])))
     (empty_world [[Media (file_in ''ACTIVE''), Text ''Who speaks?'']])) = Completed \<and>
   remote (fst (snd (snd (run 5 (recording_gateway (Inl (Exception ''503'')))
     (widgets (Some file_a) False (Some ''And now?''))
     (fst (chat_block (recording_gateway (Inl (Exception ''503''))) ''gemini-1.5-flash''
        (Some ''Who speaks?'') ready_session (empty_world [])))
     (empty_world [[Media (file_in ''ACTIVE''), Text ''Who speaks?'']]))))) =
     [[Media (file_in ''ACTIVE''), Text ''Who speaks?''],
      [Media (file_in ''ACTIVE'')],
      [Media (file_in ''ACTIVE''), Text ''And now?'']]"
proof -
  let ?gw = "recording_gateway (Inl (Exception ''503''))"
  let ?inp2 = "widgets (Some file_a) False (Some ''And now?'')"
  let ?w2 = "empty_world [[Media (file_in ''ACTIVE''), Text ''Who speaks?'']]"
  have h1: "''Who speaks?'' \<noteq> []" by simp
  have h2: "generate_content ?gw ''gemini-1.5-flash''
     [stored_video ready_session, Text ''Who speaks?''] (remote (empty_world [])) =
     (Inl (Exception ''503''), [[Media (file_in ''ACTIVE''), Text ''Who speaks?'']])"
    by (simp add: recording_gateway_def stored_video_def ready_session_def empty_world_def)
  note c = failed_ask_keeps_user_turn [OF h1, of ?gw "''gemini-1.5-flash''" ready_session
      "empty_world []", THEN conjunct1, rule_format, OF h2]
  have a: "chat_history (fst (chat_block ?gw ''gemini-1.5-flash'' (Some ''Who speaks?'')
      ready_session (empty_world []))) =
     [(''user'', ''What happens at 0:05?''), (''assistant'', ''A door opens.''),
      (''user'', ''Who speaks?'')]"
    using c [THEN conjunct2, THEN conjunct1] by (simp add: ready_session_def)
  have b: "processed_video (fst (chat_block ?gw ''gemini-1.5-flash'' (Some ''Who speaks?'')
      ready_session (empty_world []))) = Some (file_in ''ACTIVE'')"
    using c [THEN conjunct2, THEN conjunct2, THEN conjunct1] by (simp add: ready_session_def)
  have p: "processed_video ready_session = Some (file_in ''ACTIVE'')"
    by (simp add: ready_session_def)
  have k: "api_key ?inp2 \<noteq> []" by (simp add: widgets_def)
  have u: "case uploaded_file ?inp2 of None \<Rightarrow> True
           | Some f \<Rightarrow> current_file_name ready_session = Some (up_name f)"
    by (simp add: widgets_def file_a_def ready_session_def)
  have v: "vision_clicked ?inp2 = False" by (simp add: widgets_def)
  have q: "user_query ?inp2 = Some ''And now?''" by (simp add: widgets_def)
  have q2: "''And now?'' \<noteq> []" by simp
  note later = c [THEN conjunct2, THEN conjunct2, THEN conjunct2, THEN conjunct2, rule_format,
      OF p k u v q q2, of 5 ?w2]
  have d: "fst (run 5 ?gw ?inp2
     (fst (chat_block ?gw ''gemini-1.5-flash'' (Some ''Who speaks?'') ready_session (empty_world [])))
     ?w2) = Completed"
    using later by (rule conjunct1)
  have e: "remote (fst (snd (snd (run 5 ?gw ?inp2
     (fst (chat_block ?gw ''gemini-1.5-flash'' (Some ''Who speaks?'') ready_session (empty_world [])))
     ?w2)))) =
     [[Media (file_in ''ACTIVE''), Text ''Who speaks?''],
      [Media (file_in ''ACTIVE'')],
      [Media (file_in ''ACTIVE''), Text ''And now?'']]"
    using later [THEN conjunct2, THEN conjunct2]
    by (simp add: recording_gateway_def empty_world_def widgets_def)
  show ?thesis
    by (rule conjI [OF h1 conjI [OF h2 conjI [OF a conjI [OF b conjI [OF d e]]]]])
qed

text \<open>
  C6. Whatever the transcript holds, the chat block applies the remote service exactly
  once for a query, to the stored handle followed by the query and to nothing else: the
  world it leaves is the one that single call leaves, the only remote call it records
  has those contents, and the assistant turn it appends holds the answer of that call.
  No turn of the transcript is sent.
\<close>

theorem ask_sends_handle_and_query_only:
  assumes "q \<noteq> []" and "processed_video s = Some h"
  shows "fst (snd (chat_block gw model (Some q) s w)) =
           w\<lparr>remote := snd (generate_content gw model [Media h, Text q] (remote w))\<rparr> \<and>
         filter is_remote_call (map snd (snd (snd (chat_block gw model (Some q) s w)))) =
           [GenerateContent model [Media h, Text q]] \<and>
         (\<forall>answer. fst (generate_content gw model [Media h, Text q] (remote w)) = Inr answer \<longrightarrow>
            chat_history (fst (chat_block gw model (Some q) s w)) =
              chat_history s @ [(''user'', q), (''assistant'', answer)])"
proof -
  have sv: "stored_video s = Media h" using assms(2) by (simp add: stored_video_def)
  obtain r g where gc: "generate_content gw model [stored_video s, Text q] (remote w) = (r, g)"
    by (cases "generate_content gw model [stored_video s, Text q] (remote w)") auto
  show ?thesis
  proof (cases r)
    case (Inl e)
    with gc have "generate_content gw model [stored_video s, Text q] (remote w) = (Inl e, g)"
      by simp
    from chat_block_raised[OF assms(1) this] gc Inl sv show ?thesis by simp
  next
    case (Inr answer)
    with gc have "generate_content gw model [stored_video s, Text q] (remote w) = (Inr answer, g)"
      by simp
    from chat_block_answered[OF assms(1) this] gc Inr sv show ?thesis by simp
  qed
qed

theorem ask_sends_handle_and_query_only_witness:
  "''Who speaks?'' \<noteq> [] \<and> processed_video ready_session = Some (file_in ''ACTIVE'') \<and>
   length (chat_history ready_session) = 2 \<and>
   fst (snd (chat_block (recording_gateway (Inr ''Nobody.'')) ''gemini-1.5-flash''
     (Some ''Who speaks?'') ready_session (empty_world []))) =
     empty_world [[Media (file_in ''ACTIVE''), Text ''Who speaks?'']] \<and>
   chat_history (fst (chat_block (recording_gateway (Inr ''Nobody.'')) ''gemini-1.5-flash''
     (Some ''Who speaks?'') ready_session (empty_world []))) =
     [(''user'', ''What happens at 0:05?''), (''assistant'', ''A door opens.''),
      (''user'', ''Who speaks?''), (''assistant'', ''Nobody.'')]"
proof -
  let ?gw = "recording_gateway (Inr ''Nobody.'')"
  have h1: "''Who speaks?'' \<noteq> []" by simp
  have h2: "processed_video ready_session = Some (file_in ''ACTIVE'')"
    by (simp add: ready_session_def)
  have l: "length (chat_history ready_session) = 2" by (simp add: ready_session_def)
  note c = ask_sends_handle_and_query_only [OF h1 h2, of ?gw "''gemini-1.5-flash''" "empty_world []"]
  have a: "fst (snd (chat_block ?gw ''gemini-1.5-flash'' (Some ''Who speaks?'') ready_session
      (empty_world []))) = empty_world [[Media (file_in ''ACTIVE''), Text ''Who speaks?'']]"
    using c [THEN conjunct1] by (simp add: recording_gateway_def empty_world_def)
  have ans: "fst (generate_content ?gw ''gemini-1.5-flash''
      [Media (file_in ''ACTIVE''), Text ''Who speaks?''] (remote (empty_world []))) = Inr ''Nobody.''"
    by (simp add: recording_gateway_def)
  have b: "chat_history (fst (chat_block ?gw ''gemini-1.5-flash'' (Some ''Who speaks?'')
      ready_session (empty_world []))) =
     [(''user'', ''What happens at 0:05?''), (''assistant'', ''A door opens.''),
      (''user'', ''Who speaks?''), (''assistant'', ''Nobody.'')]"
    using c [THEN conjunct2, THEN conjunct2, rule_format, OF ans] by (simp add: ready_session_def)
  show ?thesis by (rule conjI [OF h1 conjI [OF h2 conjI [OF l conjI [OF a b]]]])
qed

section \<open>The poll loop and the temporary file\<close>

lemma poll_returns:
  "status_after k gw v g = Some (v', g') \<Longrightarrow> state_name v' \<noteq> ''PROCESSING'' \<Longrightarrow> k \<le> n \<Longrightarrow>
   fst (poll n gw v g) = Returned v'"
proof (induction k arbitrary: n v g)
  case 0
  then show ?case by (cases n) auto
next
  case (Suc k)
  then obtain m where n: "n = Suc m" and km: "k \<le> m" by (cases n) auto
  from Suc.prems(1) have p: "state_name v = ''PROCESSING''" by (auto split: if_splits)
  from Suc.prems(1) p obtain v1 g1 where
    fg: "files_get gw (fname v) g = (Inr v1, g1)" and sa: "status_after k gw v1 g1 = Some (v', g')"
    by (auto split: prod.splits sum.splits)
  from Suc.IH[OF sa Suc.prems(2) km] show ?case
    using p fg n by (auto split: prod.splits)
qed

lemma poll_raises:
  "status_after k gw v g = Some (v', g') \<Longrightarrow> state_name v' = ''PROCESSING'' \<Longrightarrow>
   files_get gw (fname v') g' = (Inl e, g'') \<Longrightarrow> k < n \<Longrightarrow>
   fst (poll n gw v g) = Raised e"
proof (induction k arbitrary: n v g)
  case 0
  then show ?case by (cases n) auto
next
  case (Suc k)
  then obtain m where n: "n = Suc m" and km: "k < m" by (cases n) auto
  from Suc.prems(1) have p: "state_name v = ''PROCESSING''" by (auto split: if_splits)
  from Suc.prems(1) p obtain v1 g1 where
    fg: "files_get gw (fname v) g = (Inr v1, g1)" and sa: "status_after k gw v1 g1 = Some (v', g')"
    by (auto split: prod.splits sum.splits)
  from Suc.IH[OF sa Suc.prems(2) Suc.prems(3) km] show ?case
    using p fg n by (auto split: prod.splits)
qed

lemma poll_running_iff:
  "fst (poll n gw v g) = Running \<longleftrightarrow>
   (\<exists>v' g'. status_after n gw v g = Some (v', g') \<and> state_name v' = ''PROCESSING'')"
proof (induction n arbitrary: v g)
  case 0
  show ?case by simp
next
  case (Suc n)
  show ?case
  proof (cases "state_name v = ''PROCESSING''")
    case False
    then show ?thesis by simp
  next
    case True
    obtain r g1 where fg: "files_get gw (fname v) g = (r, g1)" by (cases "files_get gw (fname v) g")
    show ?thesis
    proof (cases r)
      case (Inl e)
      with True fg show ?thesis by simp
    next
      case (Inr v1)
      with True fg have "fst (poll (Suc n) gw v g) = fst (poll n gw v1 g1)"
        by (simp split: prod.splits)
      moreover from True fg Inr have "status_after (Suc n) gw v g = status_after n gw v1 g1"
        by simp
      ultimately show ?thesis using Suc.IH[of v1 g1] by simp
    qed
  qed
qed

lemma poll_returned_D:
  "fst (poll n gw v g) = Returned v' \<Longrightarrow>
   \<exists>k\<le>n. \<exists>g'. status_after k gw v g = Some (v', g') \<and> state_name v' \<noteq> ''PROCESSING''"
proof (induction n arbitrary: v g)
  case 0
  then show ?case by (auto split: if_splits)
next
  case (Suc n)
  show ?case
  proof (cases "state_name v = ''PROCESSING''")
    case False
    with Suc.prems have "v' = v" by simp
    with False have "status_after 0 gw v g = Some (v', g) \<and> state_name v' \<noteq> ''PROCESSING''" by simp
    then show ?thesis by blast
  next
    case True
    with Suc.prems obtain v1 g1 where
      fg: "files_get gw (fname v) g = (Inr v1, g1)" and r: "fst (poll n gw v1 g1) = Returned v'"
      by (auto split: prod.splits sum.splits)
    from Suc.IH[OF r] obtain k g' where
      "k \<le> n" "status_after k gw v1 g1 = Some (v', g')" "state_name v' \<noteq> ''PROCESSING''" by blast
    with True fg have "Suc k \<le> Suc n \<and> status_after (Suc k) gw v g = Some (v', g') \<and> state_name v' \<noteq> ''PROCESSING''"
      by simp
    then show ?thesis by blast
  qed
qed

lemma poll_raised_D:
  "fst (poll n gw v g) = Raised e \<Longrightarrow>
   \<exists>k<n. \<exists>v' g' g''. status_after k gw v g = Some (v', g') \<and> state_name v' = ''PROCESSING'' \<and>
      files_get gw (fname v') g' = (Inl e, g'')"
proof (induction n arbitrary: v g)
  case 0
  then show ?case by (auto split: if_splits)
next
  case (Suc n)
  from Suc.prems have p: "state_name v = ''PROCESSING''" by (auto split: if_splits)
  obtain r g1 where fg: "files_get gw (fname v) g = (r, g1)" by (cases "files_get gw (fname v) g")
  show ?case
  proof (cases r)
    case (Inl e')
    with Suc.prems p fg have "e' = e" by simp
    with p fg Inl have "0 < Suc n \<and> status_after 0 gw v g = Some (v, g) \<and> state_name v = ''PROCESSING'' \<and>
      files_get gw (fname v) g = (Inl e, g1)" by simp
    then show ?thesis by blast
  next
    case (Inr v1)
    with Suc.prems p fg have r: "fst (poll n gw v1 g1) = Raised e" by (auto split: prod.splits)
    from Suc.IH[OF r] obtain k v' g' g'' where
      "k < n" "status_after k gw v1 g1 = Some (v', g')" "state_name v' = ''PROCESSING''"
      "files_get gw (fname v') g' = (Inl e, g'')" by blast
    with p fg Inr have "Suc k < Suc n \<and> status_after (Suc k) gw v g = Some (v', g') \<and>
       state_name v' = ''PROCESSING'' \<and> files_get gw (fname v') g' = (Inl e, g'')" by simp
    then show ?thesis by blast
  qed
qed

lemma try_body_fst:
  "fst (try_body n gw p b g) =
     (case files_upload gw p b g of
        (Inl e, g1) \<Rightarrow> Raised e
      | (Inr v, g1) \<Rightarrow>
          (case fst (poll n gw v g1) of
             Running \<Rightarrow> Running
           | Raised e \<Rightarrow> Raised e
           | Returned v' \<Rightarrow> Returned (if state_name v' = ''FAILED'' then None else Some v')))"
  by (simp add: try_body_def Let_def split: prod.splits sum.splits outcome.splits)

lemma process_video_fst:
  "fst (process_video n gw env f w) =
     (case create_error env of
        Some e \<Rightarrow> Raised e
      | None \<Rightarrow>
          (case write_error env of
             Some e \<Rightarrow> Raised e
           | None \<Rightarrow> fst (try_body n gw (tmp_path env) (up_bytes f) (remote w))))"
  by (simp add: process_video_def Let_def split: prod.splits option.splits outcome.splits)

lemma poll_halts_iff:
  "(\<exists>n. fst (poll n gw v g) \<noteq> Running) \<longleftrightarrow>
   (\<exists>k v' g'. status_after k gw v g = Some (v', g') \<and>
      (state_name v' \<noteq> ''PROCESSING'' \<or> (\<exists>e g''. files_get gw (fname v') g' = (Inl e, g''))))"
  (is "?L \<longleftrightarrow> ?R")
proof
  assume ?L
  then obtain n where n: "fst (poll n gw v g) \<noteq> Running" by blast
  show ?R
  proof (cases "fst (poll n gw v g)")
    case (Returned v')
    from poll_returned_D[OF this] show ?thesis by blast
  next
    case (Raised e)
    from poll_raised_D[OF this] show ?thesis by blast
  next
    case Running
    with n show ?thesis by simp
  qed
next
  assume ?R
  then obtain k v' g' where sa: "status_after k gw v g = Some (v', g')"
    and d: "state_name v' \<noteq> ''PROCESSING'' \<or> (\<exists>e g''. files_get gw (fname v') g' = (Inl e, g''))"
    by blast
  show ?L
  proof (cases "state_name v' = ''PROCESSING''")
    case False
    from poll_returns[OF sa False order_refl] have "fst (poll k gw v g) \<noteq> Running" by simp
    then show ?thesis by blast
  next
    case True
    with d obtain e g'' where "files_get gw (fname v') g' = (Inl e, g'')" by blast
    from poll_raises[OF sa True this, of "Suc k"] have "fst (poll (Suc k) gw v g) \<noteq> Running" by simp
    then show ?thesis by blast
  qed
qed

lemma poll_events: "sleeps_then_fetches (snd (snd (poll n gw v g)))"
proof (induction n arbitrary: v g)
  case 0
  show ?case by simp
next
  case (Suc n)
  show ?case
  proof (cases "files_get gw (fname v) g")
    case (Pair r g1)
    show ?thesis
    proof (cases r)
      case (Inl e)
      with Pair show ?thesis by simp
    next
      case (Inr v1)
      with Pair Suc.IH[of v1 g1] show ?thesis by (cases "poll n gw v1 g1") auto
    qed
  qed
qed

lemma process_video_halts_iff:
  "(\<exists>n. fst (process_video n gw env f w) \<noteq> Running) \<longleftrightarrow>
     create_error env \<noteq> None \<or> write_error env \<noteq> None \<or>
     (\<exists>e g1. files_upload gw (tmp_path env) (up_bytes f) (remote w) = (Inl e, g1)) \<or>
     (\<exists>v g1 k v' g'. files_upload gw (tmp_path env) (up_bytes f) (remote w) = (Inr v, g1) \<and>
        status_after k gw v g1 = Some (v', g') \<and>
        (state_name v' \<noteq> ''PROCESSING'' \<or> (\<exists>e g''. files_get gw (fname v') g' = (Inl e, g''))))"
proof (cases "create_error env = None \<and> write_error env = None")
  case False
  then have "fst (process_video 0 gw env f w) \<noteq> Running"
    by (auto simp: process_video_fst split: option.splits)
  then have "\<exists>n. fst (process_video n gw env f w) \<noteq> Running" by blast
  with False show ?thesis by auto
next
  case True
  obtain r g1 where up: "files_upload gw (tmp_path env) (up_bytes f) (remote w) = (r, g1)"
    by (cases "files_upload gw (tmp_path env) (up_bytes f) (remote w)")
  show ?thesis
  proof (cases r)
    case (Inl e)
    with True up show ?thesis by (auto simp: process_video_fst try_body_fst)
  next
    case (Inr v)
    have "(\<exists>n. fst (process_video n gw env f w) \<noteq> Running) \<longleftrightarrow> (\<exists>n. fst (poll n gw v g1) \<noteq> Running)"
      using True up Inr by (auto simp: process_video_fst try_body_fst split: outcome.splits)
    with True up Inr show ?thesis by (simp add: poll_halts_iff)
  qed
qed

lemma poll_running_length:
  "fst (poll n gw v g) = Running \<Longrightarrow> length (snd (snd (poll n gw v g))) = 2 * n"
proof (induction n arbitrary: v g)
  case 0
  then show ?case by (simp split: if_splits)
next
  case (Suc n)
  from Suc.prems have p: "state_name v = ''PROCESSING''" by (auto split: if_splits)
  obtain r g1 where fg: "files_get gw (fname v) g = (r, g1)" by (cases "files_get gw (fname v) g")
  show ?case
  proof (cases r)
    case (Inl e)
    with Suc.prems p fg show ?thesis by simp
  next
    case (Inr v1)
    with Suc.prems p fg have "fst (poll n gw v1 g1) = Running" by (auto split: prod.splits)
    from Suc.IH[OF this] p fg Inr show ?thesis by (auto split: prod.splits)
  qed
qed

lemma process_video_returns_iff:
  "(\<exists>n h. fst (process_video n gw env f w) = Returned h) \<longleftrightarrow>
     create_error env = None \<and> write_error env = None \<and>
     (\<exists>v g1 k v' g'. files_upload gw (tmp_path env) (up_bytes f) (remote w) = (Inr v, g1) \<and>
        status_after k gw v g1 = Some (v', g') \<and> state_name v' \<noteq> ''PROCESSING'')"
  (is "?L \<longleftrightarrow> ?R")
proof
  assume ?L
  then obtain n h where r: "fst (process_video n gw env f w) = Returned h" by blast
  then have ce: "create_error env = None" and we: "write_error env = None"
    by (auto simp: process_video_fst split: option.splits)
  obtain x g1 where up: "files_upload gw (tmp_path env) (up_bytes f) (remote w) = (x, g1)"
    by (cases "files_upload gw (tmp_path env) (up_bytes f) (remote w)")
  from r ce we up obtain v where x: "x = Inr v"
    by (cases x) (auto simp: process_video_fst try_body_fst)
  from r ce we up x obtain v' where "fst (poll n gw v g1) = Returned v'"
    by (auto simp: process_video_fst try_body_fst split: outcome.splits)
  from poll_returned_D[OF this] ce we up x show ?R by blast
next
  assume ?R
  then obtain v g1 k v' g' where ce: "create_error env = None" and we: "write_error env = None"
    and up: "files_upload gw (tmp_path env) (up_bytes f) (remote w) = (Inr v, g1)"
    and sa: "status_after k gw v g1 = Some (v', g')" and np: "state_name v' \<noteq> ''PROCESSING''"
    by blast
  from poll_returns[OF sa np order_refl] ce we up
  have "\<exists>h. fst (process_video k gw env f w) = Returned h"
    by (simp add: process_video_fst try_body_fst)
  then show ?L by blast
qed

text \<open>
  C7, as the code has it. Each iteration of the poll loop sleeps 2 and fetches the handle
  by its name, and the loop is still running after any number \<open>n\<close> of iterations when
  the \<open>n\<close> fetches all answered \<^verbatim>\<open>PROCESSING\<close>: there is no bound. \<^verbatim>\<open>process_video\<close> stops
  (it returns or raises) exactly when creating or writing the temporary file raises, the
  upload raises, or some fetch raises or answers a status other than \<^verbatim>\<open>PROCESSING\<close>; it
  returns exactly when nothing raised and the status is eventually other than
  \<^verbatim>\<open>PROCESSING\<close>.
\<close>

theorem ingest_stops_iff:
  "sleeps_then_fetches (snd (snd (poll n gw v g))) \<and>
   ((\<exists>v' g'. status_after n gw v g = Some (v', g') \<and> state_name v' = ''PROCESSING'') \<longrightarrow>
      fst (poll n gw v g) = Running \<and> length (snd (snd (poll n gw v g))) = 2 * n) \<and>
   ((\<exists>m. fst (process_video m gw env f w) \<noteq> Running) \<longleftrightarrow>
      create_error env \<noteq> None \<or> write_error env \<noteq> None \<or>
      (\<exists>e g1. files_upload gw (tmp_path env) (up_bytes f) (remote w) = (Inl e, g1)) \<or>
      (\<exists>v g1 k v' g'. files_upload gw (tmp_path env) (up_bytes f) (remote w) = (Inr v, g1) \<and>
         status_after k gw v g1 = Some (v', g') \<and>
         (state_name v' \<noteq> ''PROCESSING'' \<or> (\<exists>e g''. files_get gw (fname v') g' = (Inl e, g''))))) \<and>
   ((\<exists>m h. fst (process_video m gw env f w) = Returned h) \<longleftrightarrow>
      create_error env = None \<and> write_error env = None \<and>
      (\<exists>v g1 k v' g'. files_upload gw (tmp_path env) (up_bytes f) (remote w) = (Inr v, g1) \<and>
         status_after k gw v g1 = Some (v', g') \<and> state_name v' \<noteq> ''PROCESSING''))"
proof (intro conjI)
  show "sleeps_then_fetches (snd (snd (poll n gw v g)))" by (rule poll_events)
next
  show "(\<exists>v' g'. status_after n gw v g = Some (v', g') \<and> state_name v' = ''PROCESSING'') \<longrightarrow>
      fst (poll n gw v g) = Running \<and> length (snd (snd (poll n gw v g))) = 2 * n"
    using poll_running_iff[of n gw v g] poll_running_length[of n gw v g] by blast
next
  show "(\<exists>m. fst (process_video m gw env f w) \<noteq> Running) \<longleftrightarrow>
      create_error env \<noteq> None \<or> write_error env \<noteq> None \<or>
      (\<exists>e g1. files_upload gw (tmp_path env) (up_bytes f) (remote w) = (Inl e, g1)) \<or>
      (\<exists>v g1 k v' g'. files_upload gw (tmp_path env) (up_bytes f) (remote w) = (Inr v, g1) \<and>
         status_after k gw v g1 = Some (v', g') \<and>
         (state_name v' \<noteq> ''PROCESSING'' \<or> (\<exists>e g''. files_get gw (fname v') g' = (Inl e, g''))))"
    by (rule process_video_halts_iff)
next
  show "(\<exists>m h. fst (process_video m gw env f w) = Returned h) \<longleftrightarrow>
      create_error env = None \<and> write_error env = None \<and>
      (\<exists>v g1 k v' g'. files_upload gw (tmp_path env) (up_bytes f) (remote w) = (Inr v, g1) \<and>
         status_after k gw v g1 = Some (v', g') \<and> state_name v' \<noteq> ''PROCESSING'')"
    by (rule process_video_returns_iff)
qed

theorem ingest_stops_iff_witness:
  "fst (poll 3 stuck_gateway (file_in ''PROCESSING'') ()) = Running \<and>
   length (snd (snd (poll 3 stuck_gateway (file_in ''PROCESSING'') ()))) = 6 \<and>
   (\<exists>m. fst (process_video m (scripted_gateway (Inr (file_in ''PROCESSING'')) (Inr 0) (Inr []))
            good_os file_a (empty_world [Inr (file_in ''PROCESSING''), Inr (file_in ''ACTIVE'')]))
        \<noteq> Running)"
proof -
  let ?gw = "scripted_gateway (Inr (file_in ''PROCESSING'')) (Inr 0) (Inr [])"
  let ?w = "empty_world [Inr (file_in ''PROCESSING''), Inr (file_in ''ACTIVE'')]"
  have stuck: "\<exists>v' g'. status_after 3 stuck_gateway (file_in ''PROCESSING'') () = Some (v', g') \<and>
      state_name v' = ''PROCESSING''"
    by (simp add: stuck_gateway_def file_in_def eval_nat_numeral)
  have "status_after 2 ?gw (file_in ''PROCESSING'')
          [Inr (file_in ''PROCESSING''), Inr (file_in ''ACTIVE'')] = Some (file_in ''ACTIVE'', []) \<and>
        state_name (file_in ''ACTIVE'') \<noteq> ''PROCESSING''"
    by (simp add: scripted_gateway_def file_in_def eval_nat_numeral)
  moreover have "files_upload ?gw (tmp_path good_os) (up_bytes file_a) (remote ?w) =
      (Inr (file_in ''PROCESSING''), [Inr (file_in ''PROCESSING''), Inr (file_in ''ACTIVE'')])"
    by (simp add: scripted_gateway_def empty_world_def)
  ultimately have settles:
    "\<exists>v g1 k v' g'. files_upload ?gw (tmp_path good_os) (up_bytes file_a) (remote ?w) = (Inr v, g1) \<and>
       status_after k ?gw v g1 = Some (v', g') \<and>
       (state_name v' \<noteq> ''PROCESSING'' \<or> (\<exists>e g''. files_get ?gw (fname v') g' = (Inl e, g'')))"
    by blast
  have a: "fst (poll 3 stuck_gateway (file_in ''PROCESSING'') ()) = Running \<and>
      length (snd (snd (poll 3 stuck_gateway (file_in ''PROCESSING'') ()))) = 6"
    using ingest_stops_iff [of 3 stuck_gateway "file_in ''PROCESSING''" "()" good_os file_a
        "empty_world ()"] stuck
    by simp
  have b: "\<exists>m. fst (process_video m ?gw good_os file_a ?w) \<noteq> Running"
    using ingest_stops_iff [of 0 ?gw "file_in ''ACTIVE''" "[]" good_os file_a ?w] settles
    by blast
  from a b show ?thesis by simp
qed

text \<open>
  The claim C7 as it is written fails when a fetch raises: the call stops, although no
  status other than \<^verbatim>\<open>PROCESSING\<close> was ever answered.
\<close>

theorem ingest_stops_when_fetch_raises:
  "fst (process_video 1 (scripted_gateway (Inr (file_in ''PROCESSING'')) (Inr 0) (Inr []))
          good_os file_a (empty_world [Inl (Exception ''503 Service Unavailable'')])) =
     Raised (Exception ''503 Service Unavailable'') \<and>
   \<not> (\<exists>k v' g'.
        status_after k (scripted_gateway (Inr (file_in ''PROCESSING'')) (Inr 0) (Inr []))
          (file_in ''PROCESSING'') [Inl (Exception ''503 Service Unavailable'')] = Some (v', g') \<and>
        state_name v' \<noteq> ''PROCESSING'')"
proof
  show "fst (process_video 1 (scripted_gateway (Inr (file_in ''PROCESSING'')) (Inr 0) (Inr []))
          good_os file_a (empty_world [Inl (Exception ''503 Service Unavailable'')])) =
     Raised (Exception ''503 Service Unavailable'')"
    by (simp add: process_video_fst try_body_fst good_os_def scripted_gateway_def
        empty_world_def file_in_def)
next
  show "\<not> (\<exists>k v' g'.
        status_after k (scripted_gateway (Inr (file_in ''PROCESSING'')) (Inr 0) (Inr []))
          (file_in ''PROCESSING'') [Inl (Exception ''503 Service Unavailable'')] = Some (v', g') \<and>
        state_name v' \<noteq> ''PROCESSING'')"
  proof
    assume "\<exists>k v' g'.
        status_after k (scripted_gateway (Inr (file_in ''PROCESSING'')) (Inr 0) (Inr []))
          (file_in ''PROCESSING'') [Inl (Exception ''503 Service Unavailable'')] = Some (v', g') \<and>
        state_name v' \<noteq> ''PROCESSING''"
    then obtain k v' g' where
      sa: "status_after k (scripted_gateway (Inr (file_in ''PROCESSING'')) (Inr 0) (Inr []))
          (file_in ''PROCESSING'') [Inl (Exception ''503 Service Unavailable'')] = Some (v', g')"
      and np: "state_name v' \<noteq> ''PROCESSING''" by blast
    show False
    proof (cases k)
      case 0
      with sa np show False by (auto simp: file_in_def)
    next
      case (Suc j)
      with sa show False by (simp add: scripted_gateway_def file_in_def)
    qed
  qed
qed

lemma temp_file_removed_after_try:
  assumes "create_error env = None" and "write_error env = None"
    and "process_video n gw env f w = (r, w', evs)" and "r \<noteq> Running"
  shows "fs w' (tmp_path env) = None \<and> OsRemove (tmp_path env) \<in> set evs"
  using assms
  by (auto simp: process_video_def cleanup_def Let_def split: prod.splits outcome.splits)

text \<open>
  C5. When writing the uploaded bytes raises (here: the disk is full), the exception
  leaves \<^verbatim>\<open>process_video\<close> before the \<^verbatim>\<open>try\<close> is entered: the file that
  \<^verbatim>\<open>NamedTemporaryFile(delete=False)\<close> created is still there and nothing removes it.
\<close>

theorem temp_file_left_when_write_raises:
  "process_video 5 (scripted_gateway (Inr (file_in ''ACTIVE'')) (Inr 0) (Inr [])) full_disk_os
     file_a (empty_world []) =
   (Raised (Exception ''[Errno 28] No space left on device''),
    \<lparr>remote = [], fs = [''/tmp/tmpa1.mp4'' \<mapsto> []]\<rparr>,
    [TempCreate ''/tmp/tmpa1.mp4''])"
  by (simp add: process_video_def full_disk_os_def empty_world_def Let_def)

section \<open>The gate in front of the chat interface\<close>

lemma poll_no_generate:
  "ev \<in> set (snd (snd (poll n gw v g))) \<Longrightarrow> \<not> is_generate ev"
proof (induction n arbitrary: v g)
  case 0
  then show ?case by (simp split: if_splits)
next
  case (Suc n)
  show ?case
  proof (cases "files_get gw (fname v) g")
    case (Pair r g1)
    show ?thesis
    proof (cases r)
      case (Inl e)
      with Pair Suc.prems show ?thesis by (auto split: if_splits)
    next
      case (Inr v1)
      with Pair Suc.prems Suc.IH[of v1 g1] show ?thesis
        by (cases "poll n gw v1 g1") (auto split: if_splits)
    qed
  qed
qed

lemma try_body_no_generate:
  assumes "ev \<in> set (snd (snd (try_body n gw p b g)))"
  shows "\<not> is_generate ev"
proof (cases "files_upload gw p b g")
  case (Pair r g1)
  show ?thesis
  proof (cases r)
    case (Inl e)
    with Pair assms show ?thesis by (auto simp: try_body_def)
  next
    case (Inr v)
    obtain x g2 evs where pl: "poll n gw v g1 = (x, g2, evs)"
      by (cases "poll n gw v g1") auto
    have "\<forall>e\<in>set evs. \<not> is_generate e"
      using poll_no_generate[of _ n gw v g1] pl by auto
    with Pair Inr pl assms show ?thesis
      by (cases x) (auto simp: try_body_def Let_def split: if_splits)
  qed
qed

lemma process_video_no_generate:
  "ev \<in> set (snd (snd (process_video n gw env f w))) \<Longrightarrow> \<not> is_generate ev"
  using try_body_no_generate[of ev n gw "tmp_path env" "up_bytes f" "remote w"]
  by (auto simp: process_video_def cleanup_def Let_def
      split: prod.splits option.splits outcome.splits if_splits)

lemma upload_block_no_generate:
  assumes "(sn, ev) \<in> set (snd (snd (snd (upload_block n gw env up s w))))"
  shows "\<not> is_generate ev"
proof (cases up)
  case None
  with assms show ?thesis by (simp add: upload_block_def)
next
  case (Some f)
  show ?thesis
  proof (cases "current_file_name s = Some (up_name f)")
    case True
    with Some assms show ?thesis by (simp add: upload_block_def)
  next
    case False
    obtain r w1 evs where pv: "process_video n gw env f w = (r, w1, evs)"
      by (cases "process_video n gw env f w") auto
    have "\<forall>e\<in>set evs. \<not> is_generate e"
      using process_video_no_generate[of _ n gw env f w] pv by auto
    with Some False pv assms show ?thesis
      by (auto simp: upload_block_new_name)
  qed
qed

lemma chat_interface_generate:
  "(sn, GenerateContent m c) \<in> set (snd (snd (snd (chat_interface gw inp s w)))) \<Longrightarrow>
   \<exists>h q. processed_video sn = Some h \<and> c = [Media h, Text q]"
  by (auto simp: chat_interface_def inspector_block_def vision_block_def chat_block_def
      display_history_def stored_video_def Let_def
      split: prod.splits sum.splits option.splits if_splits status.splits)

lemma run_generate:
  assumes "(sn, GenerateContent m c) \<in> set (snd (snd (snd (run n gw inp s w))))"
  shows "\<exists>h q. processed_video sn = Some h \<and> c = [Media h, Text q]"
proof -
  obtain st s1 w1 t1 where ub: "upload_block n gw (os inp) (uploaded_file inp) s w = (st, s1, w1, t1)"
    by (cases "upload_block n gw (os inp) (uploaded_file inp) s w") auto
  have ng: "(sn, GenerateContent m c) \<notin> set t1"
    using upload_block_no_generate[of sn "GenerateContent m c" n gw "os inp" "uploaded_file inp" s w] ub
    by auto
  show ?thesis
  proof (cases "api_key inp = []")
    case True
    with assms show ?thesis by (simp add: run_def)
  next
    case False
    show ?thesis
    proof (cases st)
      case Completed
      obtain st2 s2 w2 t2 where ci: "chat_interface gw inp s1 w1 = (st2, s2, w2, t2)"
        by (cases "chat_interface gw inp s1 w1") auto
      from assms False ub Completed ci ng have "(sn, GenerateContent m c) \<in> set t2"
        by (simp add: run_def)
      with chat_interface_generate[of sn m c gw inp s1 w1] ci show ?thesis by simp
    next
      case (Aborted e)
      with assms False ub ng show ?thesis by (simp add: run_def)
    next
      case Blocked
      with assms False ub ng show ?thesis by (simp add: run_def)
    qed
  qed
qed

lemma run_idle:
  assumes "processed_video s = None"
    and "case uploaded_file inp of None \<Rightarrow> True | Some f \<Rightarrow> current_file_name s = Some (up_name f)"
  shows "\<exists>k msg. run n gw inp s w = (Completed, s, w, [(s, Show k msg)])"
  using assms
  by (auto simp: run_def upload_block_def chat_interface_def split: option.splits)

lemma runs_idle:
  assumes "processed_video s = None" and "current_file_name s = Some name"
    and "list_all (no_new_upload name) inps"
  shows "fst (runs n gw inps s w) = s \<and> fst (snd (runs n gw inps s w)) = w \<and>
         (\<forall>(sn, ev) \<in> set (snd (snd (runs n gw inps s w))). \<not> is_remote_call ev)"
  using assms(3)
proof (induction inps)
  case Nil
  show ?case by simp
next
  case (Cons inp inps)
  from Cons.prems have a: "no_new_upload name inp" and b: "list_all (no_new_upload name) inps"
    by simp_all
  from a assms(2) have
    "case uploaded_file inp of None \<Rightarrow> True | Some f \<Rightarrow> current_file_name s = Some (up_name f)"
    by (simp add: no_new_upload_def split: option.splits)
  from run_idle[OF assms(1) this, of n gw w] obtain k msg where
    r: "run n gw inp s w = (Completed, s, w, [(s, Show k msg)])" by blast
  obtain s2 w2 t2 where rr: "runs n gw inps s w = (s2, w2, t2)"
    by (cases "runs n gw inps s w") auto
  from Cons.IH[OF b] r rr show ?case by simp
qed

lemma generate_is_remote_call: "is_generate ev \<Longrightarrow> is_remote_call ev"
  by (cases ev) simp_all

lemma failed_status_returns_None:
  assumes "create_error env = None" and "write_error env = None"
    and "files_upload gw (tmp_path env) (up_bytes f) (remote w) = (Inr v0, g1)"
    and "status_after k gw v0 g1 = Some (vF, g2)" and "state_name vF = ''FAILED''" and "k \<le> n"
  shows "fst (process_video n gw env f w) = Returned None"
proof -
  from assms(5) have "state_name vF \<noteq> ''PROCESSING''" by simp
  from poll_returns[OF assms(4) this assms(6)] assms(1,2,3,5) show ?thesis
    by (simp add: process_video_fst try_body_fst)
qed

lemma failed_ingestion_run:
  assumes "api_key inp \<noteq> []" and "uploaded_file inp = Some f"
    and "current_file_name s \<noteq> Some (up_name f)"
    and "process_video n gw (os inp) f w = (Returned None, w1, evs)"
  shows "run n gw inp s w =
     (Completed, fresh_session (up_name f), w1,
      map (Pair (fresh_session (up_name f)))
        (Show Spinner ''Uploading and analyzing video...'' # evs @
         [Show StWarning ''Video upload failed. Please try again.'']))"
  using assms
  by (simp add: run_def upload_block_new_name chat_interface_def fresh_session_def)

lemma raised_ingestion_run:
  assumes "api_key inp \<noteq> []" and "uploaded_file inp = Some f"
    and "current_file_name s \<noteq> Some (up_name f)"
    and "process_video n gw (os inp) f w = (Raised e, w1, evs)"
  shows "run n gw inp s w =
     (Aborted e, fresh_session (up_name f), w1,
      map (Pair (fresh_session (up_name f)))
        (Show Spinner ''Uploading and analyzing video...'' # evs))"
  using assms
  by (simp add: run_def upload_block_new_name)

lemma fresh_session_fields:
  "processed_video (fresh_session name) = None"
  "current_file_name (fresh_session name) = Some name"
  "chat_history (fresh_session name) = []"
  by (simp_all add: fresh_session_def)

text \<open>
  C1. In one execution of the script, every remote generation call (the one of the chat
  input among them) happens in a session state that holds a handle, and it sends that
  handle. After an ingestion that the remote service ended with the status
  \<^verbatim>\<open>FAILED\<close>, the execution completes with no handle stored and without a generation
  call, and so does every later sequence of executions in which no file with another
  name is selected.
\<close>

theorem ask_only_with_stored_handle:
  "(\<forall>sn m c. (sn, GenerateContent m c) \<in> set (snd (snd (snd (run n gw inp s w)))) \<longrightarrow>
      (\<exists>h q. processed_video sn = Some h \<and> c = [Media h, Text q])) \<and>
   (api_key inp \<noteq> [] \<and> uploaded_file inp = Some f \<and>
    current_file_name s \<noteq> Some (up_name f) \<and>
    create_error (os inp) = None \<and> write_error (os inp) = None \<and>
    files_upload gw (tmp_path (os inp)) (up_bytes f) (remote w) = (Inr v0, g1) \<and>
    status_after k gw v0 g1 = Some (vF, g2) \<and> state_name vF = ''FAILED'' \<and> k \<le> n \<longrightarrow>
    (case run n gw inp s w of
       (st, s1, w1, t1) \<Rightarrow>
         st = Completed \<and> processed_video s1 = None \<and>
         (\<forall>(sn, ev) \<in> set t1. \<not> is_generate ev) \<and>
         (\<forall>inps. list_all (no_new_upload (up_name f)) inps \<longrightarrow>
            (case runs n gw inps s1 w1 of
               (s2, w2, t2) \<Rightarrow>
                 processed_video s2 = None \<and> (\<forall>(sn, ev) \<in> set t2. \<not> is_generate ev)))))"
proof (intro conjI impI allI)
  fix sn m c
  assume "(sn, GenerateContent m c) \<in> set (snd (snd (snd (run n gw inp s w))))"
  then show "\<exists>h q. processed_video sn = Some h \<and> c = [Media h, Text q]"
    by (rule run_generate)
next
  assume a: "api_key inp \<noteq> [] \<and> uploaded_file inp = Some f \<and>
    current_file_name s \<noteq> Some (up_name f) \<and>
    create_error (os inp) = None \<and> write_error (os inp) = None \<and>
    files_upload gw (tmp_path (os inp)) (up_bytes f) (remote w) = (Inr v0, g1) \<and>
    status_after k gw v0 g1 = Some (vF, g2) \<and> state_name vF = ''FAILED'' \<and> k \<le> n"
  then have "fst (process_video n gw (os inp) f w) = Returned None"
    using failed_status_returns_None[of "os inp" gw f w v0 g1 k vF g2 n] by blast
  then obtain w1 evs where pv: "process_video n gw (os inp) f w = (Returned None, w1, evs)"
    by (cases "process_video n gw (os inp) f w") auto
  from a have r: "run n gw inp s w =
     (Completed, fresh_session (up_name f), w1,
      map (Pair (fresh_session (up_name f)))
        (Show Spinner ''Uploading and analyzing video...'' # evs @
         [Show StWarning ''Video upload failed. Please try again.'']))"
    using failed_ingestion_run[OF _ _ _ pv, of s] by blast
  have ng: "\<forall>e\<in>set evs. \<not> is_generate e"
    using process_video_no_generate[of _ n gw "os inp" f w] pv by auto
  have later: "\<And>inps. list_all (no_new_upload (up_name f)) inps \<Longrightarrow>
      (case runs n gw inps (fresh_session (up_name f)) w1 of
         (s2, w2, t2) \<Rightarrow>
           processed_video s2 = None \<and> (\<forall>(sn, ev) \<in> set t2. \<not> is_generate ev))"
  proof -
    fix inps
    assume "list_all (no_new_upload (up_name f)) inps"
    from runs_idle[OF fresh_session_fields(1) fresh_session_fields(2) this, of n gw w1]
    show "case runs n gw inps (fresh_session (up_name f)) w1 of
         (s2, w2, t2) \<Rightarrow>
           processed_video s2 = None \<and> (\<forall>(sn, ev) \<in> set t2. \<not> is_generate ev)"
      using generate_is_remote_call
      by (cases "runs n gw inps (fresh_session (up_name f)) w1")
         (auto simp: fresh_session_fields)
  qed
  show "case run n gw inp s w of
       (st, s1, w1, t1) \<Rightarrow>
         st = Completed \<and> processed_video s1 = None \<and>
         (\<forall>(sn, ev) \<in> set t1. \<not> is_generate ev) \<and>
         (\<forall>inps. list_all (no_new_upload (up_name f)) inps \<longrightarrow>
            (case runs n gw inps s1 w1 of
               (s2, w2, t2) \<Rightarrow>
                 processed_video s2 = None \<and> (\<forall>(sn, ev) \<in> set t2. \<not> is_generate ev)))"
    using ng later by (auto simp: r fresh_session_fields)
qed

theorem ask_only_with_stored_handle_witness:
  "(api_key (widgets (Some file_b) False (Some ''Who speaks?'')) \<noteq> [] \<and>
    uploaded_file (widgets (Some file_b) False (Some ''Who speaks?'')) = Some file_b \<and>
    current_file_name ready_session \<noteq> Some (up_name file_b) \<and>
    create_error (os (widgets (Some file_b) False (Some ''Who speaks?''))) = None \<and>
    write_error (os (widgets (Some file_b) False (Some ''Who speaks?''))) = None \<and>
    files_upload (scripted_gateway (Inr (file_in ''PROCESSING'')) (Inr 0) (Inr ''Nobody.''))
      (tmp_path (os (widgets (Some file_b) False (Some ''Who speaks?'')))) (up_bytes file_b)
      (remote (empty_world [Inr (file_in ''FAILED'')])) =
      (Inr (file_in ''PROCESSING''), [Inr (file_in ''FAILED'')]) \<and>
    status_after 1 (scripted_gateway (Inr (file_in ''PROCESSING'')) (Inr 0) (Inr ''Nobody.''))
      (file_in ''PROCESSING'') [Inr (file_in ''FAILED'')] = Some (file_in ''FAILED'', []) \<and>
    state_name (file_in ''FAILED'') = ''FAILED'' \<and> (1::nat) \<le> 5) \<and>
   (case run 5 (scripted_gateway (Inr (file_in ''PROCESSING'')) (Inr 0) (Inr ''Nobody.''))
           (widgets (Some file_b) False (Some ''Who speaks?'')) ready_session
           (empty_world [Inr (file_in ''FAILED'')]) of
      (st, s1, w1, t1) \<Rightarrow>
        st = Completed \<and> processed_video s1 = None \<and>
        (\<forall>(sn, ev) \<in> set t1. \<not> is_generate ev) \<and>
        (case runs 5 (scripted_gateway (Inr (file_in ''PROCESSING'')) (Inr 0) (Inr ''Nobody.''))
                [widgets (Some \<lparr>up_name = ''b.mp4'', up_bytes = ''other bytes''\<rparr>) False
                   (Some ''And now?''),
                 widgets None True (Some ''Again?'')] s1 w1 of
           (s2, w2, t2) \<Rightarrow>
             processed_video s2 = None \<and> (\<forall>(sn, ev) \<in> set t2. \<not> is_generate ev)))"
proof -
  let ?gw = "scripted_gateway (Inr (file_in ''PROCESSING'')) (Inr 0) (Inr ''Nobody.'')"
  let ?inp = "widgets (Some file_b) False (Some ''Who speaks?'')"
  let ?w = "empty_world [Inr (file_in ''FAILED'')]"
  let ?later = "[widgets (Some \<lparr>up_name = ''b.mp4'', up_bytes = ''other bytes''\<rparr>) False
                   (Some ''And now?''),
                 widgets None True (Some ''Again?'')]"
  have h: "api_key ?inp \<noteq> [] \<and> uploaded_file ?inp = Some file_b \<and>
    current_file_name ready_session \<noteq> Some (up_name file_b) \<and>
    create_error (os ?inp) = None \<and> write_error (os ?inp) = None \<and>
    files_upload ?gw (tmp_path (os ?inp)) (up_bytes file_b) (remote ?w) =
      (Inr (file_in ''PROCESSING''), [Inr (file_in ''FAILED'')]) \<and>
    status_after 1 ?gw (file_in ''PROCESSING'') [Inr (file_in ''FAILED'')] =
      Some (file_in ''FAILED'', []) \<and>
    state_name (file_in ''FAILED'') = ''FAILED'' \<and> (1::nat) \<le> 5"
    by (simp add: widgets_def good_os_def ready_session_def file_b_def scripted_gateway_def
        empty_world_def file_in_def)
  have la: "list_all (no_new_upload (up_name file_b)) ?later"
    by (simp add: no_new_upload_def widgets_def file_b_def)
  obtain st s1 w1 t1 where r: "run 5 ?gw ?inp ready_session ?w = (st, s1, w1, t1)"
    by (cases "run 5 ?gw ?inp ready_session ?w") auto
  have c: "case run 5 ?gw ?inp ready_session ?w of
       (st, s1, w1, t1) \<Rightarrow>
         st = Completed \<and> processed_video s1 = None \<and>
         (\<forall>(sn, ev) \<in> set t1. \<not> is_generate ev) \<and>
         (\<forall>inps. list_all (no_new_upload (up_name file_b)) inps \<longrightarrow>
            (case runs 5 ?gw inps s1 w1 of
               (s2, w2, t2) \<Rightarrow>
                 processed_video s2 = None \<and> (\<forall>(sn, ev) \<in> set t2. \<not> is_generate ev)))"
    by (rule ask_only_with_stored_handle [of 5 ?gw ?inp ready_session ?w file_b
          "file_in ''PROCESSING''" "[Inr (file_in ''FAILED'')]" 1 "file_in ''FAILED''" "[]",
          THEN conjunct2, THEN mp, OF h])
  from c r have c1: "st = Completed \<and> processed_video s1 = None \<and>
         (\<forall>(sn, ev) \<in> set t1. \<not> is_generate ev)"
    and c2: "\<forall>inps. list_all (no_new_upload (up_name file_b)) inps \<longrightarrow>
            (case runs 5 ?gw inps s1 w1 of
               (s2, w2, t2) \<Rightarrow>
                 processed_video s2 = None \<and> (\<forall>(sn, ev) \<in> set t2. \<not> is_generate ev))"
    by simp_all
  have c3: "case runs 5 ?gw ?later s1 w1 of
               (s2, w2, t2) \<Rightarrow>
                 processed_video s2 = None \<and> (\<forall>(sn, ev) \<in> set t2. \<not> is_generate ev)"
    by (rule c2 [THEN spec, THEN mp, OF la])
  from c1 c3 have c4: "case run 5 ?gw ?inp ready_session ?w of
      (st, s1, w1, t1) \<Rightarrow>
        st = Completed \<and> processed_video s1 = None \<and>
        (\<forall>(sn, ev) \<in> set t1. \<not> is_generate ev) \<and>
        (case runs 5 ?gw ?later s1 w1 of
           (s2, w2, t2) \<Rightarrow>
             processed_video s2 = None \<and> (\<forall>(sn, ev) \<in> set t2. \<not> is_generate ev))"
    by (simp add: r)
  show ?thesis by (rule conjI [OF h c4])
qed

section \<open>After a failed ingestion\<close>

text \<open>
  C10. When the ingestion of a newly named file ends without a handle (the remote
  status is \<^verbatim>\<open>FAILED\<close>, or something raised), the new name was stored before the
  ingestion ran: every event of that execution happens in the session state with the new
  name, no handle and an empty transcript, and that is the state left. From it, an
  execution in which a file of the same name is selected, whatever its bytes, only
  displays the warning: no remote call, no change of the session state or of the world.
  The same holds for every sequence of executions in which no file with another name is
  selected.
\<close>

theorem failed_ingestion_blocks_same_name:
  assumes "api_key inp \<noteq> []" and "uploaded_file inp = Some f"
    and "current_file_name s \<noteq> Some (up_name f)"
    and "fst (process_video n gw (os inp) f w) = Returned None \<or>
         (\<exists>e. fst (process_video n gw (os inp) f w) = Raised e)"
  shows "(case run n gw inp s w of
            (st, s1, w1, t1) \<Rightarrow>
              s1 = fresh_session (up_name f) \<and>
              (\<forall>(sn, ev) \<in> set t1. sn = fresh_session (up_name f)) \<and>
              (\<forall>ev \<in> set (snd (snd (process_video n gw (os inp) f w))).
                 (fresh_session (up_name f), ev) \<in> set t1)) \<and>
         (\<forall>m (inp' :: inputs) w' bytes. api_key inp' \<noteq> [] \<longrightarrow>
            uploaded_file inp' = Some \<lparr>up_name = up_name f, up_bytes = bytes\<rparr> \<longrightarrow>
            run m gw inp' (fresh_session (up_name f)) w' =
              (Completed, fresh_session (up_name f), w',
               [(fresh_session (up_name f),
                 Show StWarning ''Video upload failed. Please try again.'')])) \<and>
         (\<forall>m inps w'. list_all (no_new_upload (up_name f)) inps \<longrightarrow>
            (case runs m gw inps (fresh_session (up_name f)) w' of
               (s2, w2, t2) \<Rightarrow>
                 s2 = fresh_session (up_name f) \<and> w2 = w' \<and>
                 (\<forall>(sn, ev) \<in> set t2. \<not> is_remote_call ev)))"
proof (intro conjI allI impI)
  obtain r w1 evs where pv: "process_video n gw (os inp) f w = (r, w1, evs)"
    by (cases "process_video n gw (os inp) f w") auto
  from assms(4) pv have "r = Returned None \<or> (\<exists>e. r = Raised e)" by simp
  then show "case run n gw inp s w of
            (st, s1, w1, t1) \<Rightarrow>
              s1 = fresh_session (up_name f) \<and>
              (\<forall>(sn, ev) \<in> set t1. sn = fresh_session (up_name f)) \<and>
              (\<forall>ev \<in> set (snd (snd (process_video n gw (os inp) f w))).
                 (fresh_session (up_name f), ev) \<in> set t1)"
  proof
    assume "r = Returned None"
    with pv failed_ingestion_run[OF assms(1,2,3), of n gw w w1 evs] show ?thesis by auto
  next
    assume "\<exists>e. r = Raised e"
    then obtain e where "r = Raised e" by blast
    with pv raised_ingestion_run[OF assms(1,2,3), of n gw w e w1 evs] show ?thesis by auto
  qed
next
  fix m and inp' :: inputs and w' :: "'a world" and bytes
  assume "api_key inp' \<noteq> []"
    and "uploaded_file inp' = Some \<lparr>up_name = up_name f, up_bytes = bytes\<rparr>"
  then show "run m gw inp' (fresh_session (up_name f)) w' =
              (Completed, fresh_session (up_name f), w',
               [(fresh_session (up_name f),
                 Show StWarning ''Video upload failed. Please try again.'')])"
    by (simp add: run_def upload_block_def chat_interface_def fresh_session_fields)
next
  fix m inps w'
  assume "list_all (no_new_upload (up_name f)) inps"
  from runs_idle[OF fresh_session_fields(1) fresh_session_fields(2) this, of m gw w']
  show "case runs m gw inps (fresh_session (up_name f)) w' of
               (s2, w2, t2) \<Rightarrow>
                 s2 = fresh_session (up_name f) \<and> w2 = w' \<and>
                 (\<forall>(sn, ev) \<in> set t2. \<not> is_remote_call ev)"
    by (cases "runs m gw inps (fresh_session (up_name f)) w'") auto
qed

theorem failed_ingestion_blocks_same_name_witness:
  "(api_key (widgets (Some file_b) False None) \<noteq> [] \<and>
    uploaded_file (widgets (Some file_b) False None) = Some file_b \<and>
    current_file_name ready_session \<noteq> Some (up_name file_b) \<and>
    fst (process_video 5 (scripted_gateway (Inl (Exception ''403 Forbidden'')) (Inr 0) (Inr []))
          (os (widgets (Some file_b) False None)) file_b (empty_world [])) =
      Raised (Exception ''403 Forbidden'')) \<and>
   fst (snd (run 5 (scripted_gateway (Inl (Exception ''403 Forbidden'')) (Inr 0) (Inr []))
               (widgets (Some file_b) False None) ready_session (empty_world []))) =
     fresh_session ''b.mp4'' \<and>
   run 7 (scripted_gateway (Inl (Exception ''403 Forbidden'')) (Inr 0) (Inr []))
     (widgets (Some \<lparr>up_name = ''b.mp4'', up_bytes = ''other bytes''\<rparr>) True (Some ''Hello?''))
     (fresh_session ''b.mp4'') (empty_world []) =
     (Completed, fresh_session ''b.mp4'', empty_world [],
      [(fresh_session ''b.mp4'', Show StWarning ''Video upload failed. Please try again.'')])"
proof -
  let ?gw = "scripted_gateway (Inl (Exception ''403 Forbidden'')) (Inr 0) (Inr [])"
  let ?inp = "widgets (Some file_b) False None"
  let ?inp2 = "widgets (Some \<lparr>up_name = ''b.mp4'', up_bytes = ''other bytes''\<rparr>) True (Some ''Hello?'')"
  have h1: "api_key ?inp \<noteq> []" by (simp add: widgets_def)
  have h2: "uploaded_file ?inp = Some file_b" by (simp add: widgets_def)
  have h3: "current_file_name ready_session \<noteq> Some (up_name file_b)"
    by (simp add: ready_session_def file_b_def)
  have h4: "fst (process_video 5 ?gw (os ?inp) file_b (empty_world [])) =
      Raised (Exception ''403 Forbidden'')"
    by (simp add: process_video_fst try_body_fst widgets_def good_os_def scripted_gateway_def)
  then have h4': "fst (process_video 5 ?gw (os ?inp) file_b (empty_world [])) = Returned None \<or>
      (\<exists>e. fst (process_video 5 ?gw (os ?inp) file_b (empty_world [])) = Raised e)"
    by blast
  have nm: "up_name file_b = ''b.mp4''" by (simp add: file_b_def)
  note c = failed_ingestion_blocks_same_name [OF h1 h2 h3 h4', unfolded nm]
  from c have a: "fst (snd (run 5 ?gw ?inp ready_session (empty_world []))) = fresh_session ''b.mp4''"
    by (cases "run 5 ?gw ?inp ready_session (empty_world [])") simp
  have k2: "api_key ?inp2 \<noteq> []" by (simp add: widgets_def)
  have u2: "uploaded_file ?inp2 = Some \<lparr>up_name = ''b.mp4'', up_bytes = ''other bytes''\<rparr>"
    by (simp add: widgets_def)
  from c have "\<forall>m (inp' :: inputs) w' bytes. api_key inp' \<noteq> [] \<longrightarrow>
            uploaded_file inp' = Some \<lparr>up_name = ''b.mp4'', up_bytes = bytes\<rparr> \<longrightarrow>
            run m ?gw inp' (fresh_session ''b.mp4'') w' =
              (Completed, fresh_session ''b.mp4'', w',
               [(fresh_session ''b.mp4'',
                 Show StWarning ''Video upload failed. Please try again.'')])"
    by (rule conjunct2 [THEN conjunct1])
  from this [rule_format, OF k2 u2, of 7 "empty_world []"]
  have b: "run 7 ?gw ?inp2 (fresh_session ''b.mp4'') (empty_world []) =
     (Completed, fresh_session ''b.mp4'', empty_world [],
      [(fresh_session ''b.mp4'', Show StWarning ''Video upload failed. Please try again.'')])" .
  from h1 h2 h3 h4 a b show ?thesis by (intro conjI)
qed

section \<open>The inspector and the vision check\<close>

text \<open>
  C9. The token inspector and the vision check leave the session state as it is,
  whether the remote call answers or raises: the state each block returns is the state
  it was given, and all their events happen in that state. An execution of the script
  in a session that holds a handle, with no new file and no query, therefore ends
  (completed, or stopped by the exception of the vision check) in the session state it
  started from; no turn is appended.
\<close>

theorem inspection_leaves_session:
  "fst (inspector_block gw m s w) = s \<and>
   (\<forall>(sn, ev) \<in> set (snd (snd (inspector_block gw m s w))). sn = s) \<and>
   fst (snd (vision_block gw m clicked s w)) = s \<and>
   (\<forall>(sn, ev) \<in> set (snd (snd (snd (vision_block gw m clicked s w)))). sn = s) \<and>
   (processed_video s \<noteq> None \<and> api_key inp \<noteq> [] \<and>
    (case uploaded_file inp of None \<Rightarrow> True | Some f \<Rightarrow> current_file_name s = Some (up_name f)) \<and>
    user_query inp = None \<longrightarrow>
    fst (run n gw inp s w) \<noteq> Blocked \<and> fst (snd (run n gw inp s w)) = s \<and>
    (\<forall>(sn, ev) \<in> set (snd (snd (snd (run n gw inp s w)))). sn = s))"
proof -
  have i1: "fst (inspector_block gw m s w) = s" for m s and w :: "'a world"
    by (simp add: inspector_block_def Let_def split: prod.splits sum.splits)
  have i2: "\<forall>(sn, ev) \<in> set (snd (snd (inspector_block gw m s w))). sn = s"
    for m s and w :: "'a world"
    by (simp add: inspector_block_def Let_def split: prod.splits sum.splits)
  have v1: "fst (snd (vision_block gw m clicked s w)) = s" for m clicked s and w :: "'a world"
    by (simp add: vision_block_def Let_def split: prod.splits sum.splits)
  have v2: "\<forall>(sn, ev) \<in> set (snd (snd (snd (vision_block gw m clicked s w)))). sn = s"
    for m clicked s and w :: "'a world"
    by (simp add: vision_block_def Let_def split: prod.splits sum.splits)
  have r: "fst (run n gw inp s w) \<noteq> Blocked \<and> fst (snd (run n gw inp s w)) = s \<and>
      (\<forall>(sn, ev) \<in> set (snd (snd (snd (run n gw inp s w)))). sn = s)"
    if a: "processed_video s \<noteq> None" "api_key inp \<noteq> []"
      "case uploaded_file inp of None \<Rightarrow> True | Some f \<Rightarrow> current_file_name s = Some (up_name f)"
      "user_query inp = None"
  proof -
    from a(3) have ub: "upload_block n gw (os inp) (uploaded_file inp) s w = (Completed, s, w, [])"
      by (simp add: upload_block_def split: option.splits)
    obtain s2 w2 t2 where ib: "inspector_block gw (model_name inp) s w = (s2, w2, t2)"
      by (cases "inspector_block gw (model_name inp) s w") auto
    from i1[of "model_name inp" s w] i2[of "model_name inp" s w] ib
    have s2: "s2 = s" and t2: "\<forall>(sn, ev) \<in> set t2. sn = s" by simp_all
    obtain st s3 w3 t3 where vb:
      "vision_block gw (model_name inp) (vision_clicked inp) s w2 = (st, s3, w3, t3)"
      by (cases "vision_block gw (model_name inp) (vision_clicked inp) s w2") auto
    from v1[of "model_name inp" "vision_clicked inp" s w2]
      v2[of "model_name inp" "vision_clicked inp" s w2] vb
    have s3: "s3 = s" and t3: "\<forall>(sn, ev) \<in> set t3. sn = s" by simp_all
    have nb: "st \<noteq> Blocked"
      using vb by (auto simp: vision_block_def Let_def split: prod.splits sum.splits if_splits)
    have dh: "\<forall>(sn, ev) \<in> set (display_history s). sn = s"
      by (auto simp: display_history_def)
    show ?thesis
      using a(1,2,4) ub ib vb s2 s3 t2 t3 nb dh
      by (cases st) (auto simp: run_def chat_interface_def chat_block_def)
  qed
  from i1 i2 v1 v2 r show ?thesis by blast
qed

theorem inspection_leaves_session_witness:
  "(processed_video ready_session \<noteq> None \<and>
    api_key (widgets (Some file_a) True None) \<noteq> [] \<and>
    (case uploaded_file (widgets (Some file_a) True None) of
       None \<Rightarrow> True
     | Some f \<Rightarrow> current_file_name ready_session = Some (up_name f)) \<and>
    user_query (widgets (Some file_a) True None) = None) \<and>
   fst (run 5 (scripted_gateway (Inr (file_in ''ACTIVE'')) (Inl (Exception ''429'')) (Inl (Exception ''500'')))
          (widgets (Some file_a) True None) ready_session (empty_world [])) =
     Aborted (Exception ''500'') \<and>
   fst (snd (run 5 (scripted_gateway (Inr (file_in ''ACTIVE'')) (Inl (Exception ''429'')) (Inl (Exception ''500'')))
          (widgets (Some file_a) True None) ready_session (empty_world []))) = ready_session \<and>
   fst (snd (run 5 (scripted_gateway (Inr (file_in ''ACTIVE'')) (Inr 2630) (Inr ''0:00 to 0:10.''))
          (widgets (Some file_a) True None) ready_session (empty_world []))) = ready_session"
proof -
  let ?inp = "widgets (Some file_a) True None"
  let ?bad = "scripted_gateway (Inr (file_in ''ACTIVE'')) (Inl (Exception ''429'')) (Inl (Exception ''500''))"
  let ?good = "scripted_gateway (Inr (file_in ''ACTIVE'')) (Inr 2630) (Inr ''0:00 to 0:10.'')"
  have h: "processed_video ready_session \<noteq> None \<and> api_key ?inp \<noteq> [] \<and>
    (case uploaded_file ?inp of None \<Rightarrow> True
     | Some f \<Rightarrow> current_file_name ready_session = Some (up_name f)) \<and>
    user_query ?inp = None"
    by (simp add: ready_session_def widgets_def file_a_def)
  have a: "fst (run 5 ?bad ?inp ready_session (empty_world [])) = Aborted (Exception ''500'')"
    by (simp add: run_def upload_block_def chat_interface_def inspector_block_def
        vision_block_def scripted_gateway_def widgets_def file_a_def ready_session_def
        empty_world_def Let_def)
  have b: "fst (snd (run 5 ?bad ?inp ready_session (empty_world []))) = ready_session"
    using inspection_leaves_session [of ?bad "model_name ?inp" ready_session "empty_world []"
        True ?inp 5] h
    by blast
  have c: "fst (snd (run 5 ?good ?inp ready_session (empty_world []))) = ready_session"
    using inspection_leaves_session [of ?good "model_name ?inp" ready_session "empty_world []"
        True ?inp 5] h
    by blast
  show ?thesis by (rule conjI [OF h conjI [OF a conjI [OF b c]]])
qed

section \<open>The estimated duration\<close>

lemma bit_length_bounds:
  "0 < n \<Longrightarrow> 2 ^ (bit_length n - 1) \<le> n \<and> n < 2 ^ bit_length n"
proof (induction n rule: bit_length.induct)
  case (1 n)
  show ?case
  proof (cases "n div 2 = 0")
    case True
    with "1.prems" have "n = 1" by (simp add: div_eq_0_iff) 
    then show ?thesis by simp
  next
    case False
    then have p: "0 < n div 2" by simp
    from "1.IH" "1.prems" p have ih: "2 ^ (bit_length (n div 2) - 1) \<le> n div 2 \<and> n div 2 < 2 ^ bit_length (n div 2)"
      by simp
    have bl: "bit_length n = Suc (bit_length (n div 2))" using "1.prems" by (subst bit_length.simps) simp
    have pos: "0 < bit_length (n div 2)" using p by (subst bit_length.simps) simp
    then obtain k where k: "bit_length (n div 2) = Suc k" by (cases "bit_length (n div 2)") auto
    from ih k have "2 ^ k \<le> n div 2" "n div 2 < 2 * 2 ^ k" by simp_all
    then have "2 * 2 ^ k \<le> n" "n < 2 * (2 * 2 ^ k)" by linarith+
    with bl k show ?thesis by simp
  qed
qed

lemma round_half_even_err: "\<bar>of_int (round_half_even x) - x\<bar> \<le> 1 / 2"
proof -
  have "of_int \<lfloor>x\<rfloor> \<le> x" "x < of_int \<lfloor>x\<rfloor> + 1" by linarith+
  then show ?thesis
    by (auto simp: round_half_even_def Let_def abs_le_iff)
qed

lemma round_half_even_of_int [simp]: "round_half_even (of_int k) = k"
  by (simp add: round_half_even_def Let_def)


lemma two_powi_mult_pow:
  "(2::rat) powi e * 2 ^ n = 2 powi (e + int n)"
  by (simp add: power_int_add)

lemma two_powi_pred: "1 \<le> k \<Longrightarrow> (2::rat) powi (int k - 1) = 2 ^ (k - 1)"
proof -
  assume "1 \<le> k"
  then obtain j where j: "k = Suc j" by (cases k) auto
  have "int k - 1 = int j" using j by simp
  then show ?thesis using j by simp
qed

lemma binary_exponent_bounds:
  assumes "0 < q"
  shows "2 powi binary_exponent q \<le> q \<and> q < 2 powi (binary_exponent q + 1)"
proof -
  obtain a b where qo: "quotient_of q = (a, b)" by (cases "quotient_of q")
  then have bpos: "0 < b" and qeq: "q = of_int a / of_int b"
    by (simp_all add: quotient_of_denom_pos quotient_of_div)
  from assms qeq bpos have apos: "0 < a" by (simp add: zero_less_divide_iff)
  define A where "A = nat a"
  define B where "B = nat b"
  define ka where "ka = bit_length A"
  define kb where "kb = bit_length B"
  define e0 where "e0 = int ka - int kb"
  have Apos: "0 < A" and Bpos: "0 < B" using apos bpos by (simp_all add: A_def B_def)
  have qAB: "q * of_nat B = of_nat A"
    using qeq apos bpos by (simp add: A_def B_def)
  from bit_length_bounds[OF Apos] have A1: "2 ^ (ka - 1) \<le> A" and A2: "A < 2 ^ ka"
    by (simp_all add: ka_def)
  from bit_length_bounds[OF Bpos] have B1: "2 ^ (kb - 1) \<le> B" and B2: "B < 2 ^ kb"
    by (simp_all add: kb_def)
  have ka1: "1 \<le> ka" using Apos by (simp add: ka_def)
  have kb1: "1 \<le> kb" using Bpos by (simp add: kb_def)
  have rA1: "(2::rat) ^ (ka - 1) \<le> of_nat A" using A1 by (metis of_nat_le_iff of_nat_numeral of_nat_power)
  have rA2: "(of_nat A :: rat) < 2 ^ ka" using A2 by (metis of_nat_less_iff of_nat_numeral of_nat_power)
  have rB1: "(2::rat) ^ (kb - 1) \<le> of_nat B" using B1 by (metis of_nat_le_iff of_nat_numeral of_nat_power)
  have rB2: "(of_nat B :: rat) < 2 ^ kb" using B2 by (metis of_nat_less_iff of_nat_numeral of_nat_power)
  have rBpos: "(0::rat) < of_nat B" using Bpos by simp
  have up: "q < 2 powi (e0 + 1)"
  proof -
    have "2 powi (e0 + 1) * (2::rat) ^ (kb - 1) = 2 ^ ka"
      using kb1 by (simp add: two_powi_mult_pow e0_def of_nat_diff)
    moreover have "2 powi (e0 + 1) * (2::rat) ^ (kb - 1) \<le> 2 powi (e0 + 1) * of_nat B"
      using rB1 by (simp add: mult_left_mono)
    ultimately have "q * of_nat B < 2 powi (e0 + 1) * of_nat B"
      using rA2 qAB by linarith
    with rBpos show ?thesis by simp
  qed
  have lo: "2 powi (e0 - 1) \<le> q"
  proof -
    have "2 powi (e0 - 1) * (2::rat) ^ kb = 2 ^ (ka - 1)"
      using ka1 by (simp add: two_powi_mult_pow e0_def two_powi_pred)
    moreover have "2 powi (e0 - 1) * of_nat B \<le> 2 powi (e0 - 1) * (2::rat) ^ kb"
      using rB2 by (simp add: mult_left_mono)
    ultimately have "2 powi (e0 - 1) * of_nat B \<le> q * of_nat B"
      using rA1 qAB by linarith
    with rBpos show ?thesis by simp
  qed
  have be: "binary_exponent q = (if 2 powi e0 \<le> q then e0 else e0 - 1)"
    using qo by (simp add: binary_exponent_def Let_def A_def B_def ka_def kb_def e0_def)
  show ?thesis
  proof (cases "2 powi e0 \<le> q")
    case True
    with be up show ?thesis by simp
  next
    case False
    with be lo show ?thesis by simp
  qed
qed


lemma two_powi_less_cancel: "(2::rat) powi m < 2 powi n \<Longrightarrow> m < n"
proof (rule ccontr)
  assume less: "(2::rat) powi m < 2 powi n" and "\<not> m < n"
  then have "n \<le> m" by simp
  then have "(2::rat) powi n \<le> 2 powi m" by (rule power_int_increasing) simp
  with less show False by simp
qed

lemma float_of_rat_rel_err:
  assumes "float_of_rat q = Inr d" and "2 powi (- 1022) \<le> \<bar>q\<bar>"
  shows "\<bar>d - q\<bar> \<le> \<bar>q\<bar> / 2 ^ 53"
proof -
  define a where "a = \<bar>q\<bar>"
  have "(0::rat) < 2 powi (- 1022)" by simp
  with assms(2) have apos: "0 < a" unfolding a_def by linarith
  then have q0: "q \<noteq> 0" by (auto simp: a_def)
  define e where "e = binary_exponent a"
  from binary_exponent_bounds[OF apos] have lo: "2 powi e \<le> a" and hi: "a < 2 powi (e + 1)"
    by (simp_all add: e_def)
  from assms(2) hi have "(2::rat) powi (- 1022) < 2 powi (e + 1)" unfolding a_def by linarith
  then have "- 1022 < e + 1" by (rule two_powi_less_cancel)
  then have emax: "max e (- 1022) = e" by simp
  define u where "u = (2::rat) powi (e - 52)"
  have upos: "0 < u" by (simp add: u_def)
  define m where "m = round_half_even (a / u)"
  from assms(1) q0 have d: "d = sgn q * (of_int m * u)"
    by (simp add: float_of_rat_def Let_def a_def[symmetric] e_def[symmetric] emax
        u_def[symmetric] m_def[symmetric] split: if_splits)
  have "q = sgn q * a" by (simp add: a_def sgn_mult_abs)
  then have "d - q = sgn q * (of_int m * u - a)" using d by (simp add: algebra_simps)
  then have "\<bar>d - q\<bar> = \<bar>of_int m * u - a\<bar>" using q0 by (simp add: abs_mult abs_sgn_eq)
  also have "of_int m * u - a = u * (of_int m - a / u)" using upos by (simp add: algebra_simps)
  also have "\<bar>u * (of_int m - a / u)\<bar> = u * \<bar>of_int m - a / u\<bar>"
    using upos by (simp add: abs_mult)
  also have "\<dots> \<le> u * (1 / 2)"
    using round_half_even_err[of "a / u"] upos unfolding m_def by (simp add: mult_left_mono)
  also have "u * (1 / 2) = 2 powi e / 2 ^ 53"
  proof -
    have "(2::rat) powi (e - 52) = 2 powi e / 2 powi 52" by (simp add: power_int_diff)
    then show ?thesis by (simp add: u_def)
  qed
  also have "\<dots> \<le> a / 2 ^ 53" using lo by (simp add: divide_right_mono)
  finally show ?thesis by (simp add: a_def)
qed

lemma float_of_rat_exact:
  assumes "\<bar>k\<bar> < 2 ^ 53"
  shows "float_of_rat (of_int k) = Inr (of_int k)"
proof (cases "k = 0")
  case True
  then show ?thesis by (simp add: float_of_rat_def)
next
  case False
  define a :: rat where "a = \<bar>of_int k\<bar>"
  have ak: "a = of_int \<bar>k\<bar>" by (simp add: a_def)
  from False have "1 \<le> \<bar>k\<bar>" by simp
  then have a1: "1 \<le> a" unfolding ak by (simp only: of_int_1_le_iff)
  then have apos: "0 < a" by simp
  have a53: "a < 2 ^ 53" using assms unfolding ak
    by (metis of_int_less_iff of_int_numeral of_int_power)
  define e where "e = binary_exponent a"
  from binary_exponent_bounds[OF apos] have lo: "2 powi e \<le> a" and hi: "a < 2 powi (e + 1)"
    by (simp_all add: e_def)
  from a1 hi have "(2::rat) powi 0 < 2 powi (e + 1)" by simp
  then have e0: "0 \<le> e" using two_powi_less_cancel[of 0 "e + 1"] by simp
  from lo a53 have "(2::rat) powi e < 2 powi 53" by simp
  then have e52: "e \<le> 52" using two_powi_less_cancel[of e 53] by simp
  from e0 have emax: "max e (- 1022) = e" by simp
  define j where "j = nat (52 - e)"
  have je: "e - 52 = - int j" using e52 by (simp add: j_def)
  define u where "u = (2::rat) powi (e - 52)"
  have u: "u = 1 / 2 ^ j" by (simp add: u_def je power_int_minus field_simps)
  have au: "a / u = of_int (\<bar>k\<bar> * 2 ^ j)" by (simp add: u ak)
  have m: "round_half_even (a / u) = \<bar>k\<bar> * 2 ^ j"
    by (simp only: au round_half_even_of_int)
  have d: "of_int (round_half_even (a / u)) * u = a" unfolding m by (simp add: u ak)
  have small: "\<not> 2 powi 1024 \<le> a"
  proof -
    have "(2::rat) ^ 53 \<le> 2 ^ 1024" by (rule power_increasing) simp_all
    with a53 show ?thesis by simp
  qed
  have "sgn (of_int k :: rat) * a = of_int k" by (simp add: a_def sgn_mult_abs)
  with False small show ?thesis
    by (simp add: float_of_rat_def Let_def a_def[symmetric] e_def[symmetric] emax
        u_def[symmetric] d)
qed

lemma est_seconds_rel_err:
  assumes "est_seconds t = Inr d"
  shows "\<bar>d - of_int t / 263\<bar> \<le> \<bar>of_int t / 263\<bar> / 2 ^ 53"
proof (cases "t = 0")
  case True
  with assms show ?thesis by (simp add: est_seconds_def true_div_def float_of_rat_def)
next
  case False
  then have "1 \<le> \<bar>t\<bar>" by simp
  then have "(1::rat) \<le> \<bar>of_int t\<bar>" by (metis of_int_abs of_int_1_le_iff)
  then have "(1::rat) / 263 \<le> \<bar>of_int t / 263\<bar>" by (simp add: divide_right_mono)
  moreover have "(2::rat) powi (- 1022) \<le> 1 / 263"
  proof -
    have "(2::rat) powi (- 1022) \<le> 2 powi (- 9)" by (rule power_int_increasing) simp_all
    also have "\<dots> \<le> 1 / 263" by (simp add: power_int_minus)
    finally show ?thesis .
  qed
  ultimately have "2 powi (- 1022) \<le> \<bar>of_int t / 263 :: rat\<bar>" by linarith
  from float_of_rat_rel_err[OF _ this, of d] assms show ?thesis
    by (simp add: est_seconds_def true_div_def)
qed

lemma est_seconds_exact:
  assumes "\<bar>k\<bar> < 2 ^ 53"
  shows "est_seconds (263 * k) = Inr (of_int k)"
  using float_of_rat_exact[OF assms] by (simp add: est_seconds_def true_div_def)


lemma round_half_even_le:
  assumes "x \<le> of_int N"
  shows "round_half_even x \<le> N"
proof -
  have f: "\<lfloor>x\<rfloor> \<le> N" using assms by (simp add: floor_le_iff) 
  show ?thesis
  proof (cases "x - of_int \<lfloor>x\<rfloor> < 1 / 2")
    case True
    with f show ?thesis by (simp add: round_half_even_def Let_def)
  next
    case False
    then have "of_int \<lfloor>x\<rfloor> < x" by linarith
    with assms have "(of_int \<lfloor>x\<rfloor> :: rat) < of_int N" by linarith
    then have "\<lfloor>x\<rfloor> < N" by (simp only: of_int_less_iff)
    then show ?thesis by (auto simp: round_half_even_def Let_def)
  qed
qed

lemma est_seconds_defined:
  assumes "\<bar>t\<bar> < 2 ^ 1000"
  shows "\<exists>d. est_seconds t = Inr d"
proof (cases "t = 0")
  case True
  then show ?thesis by (simp add: est_seconds_def true_div_def float_of_rat_def)
next
  case False
  define q :: rat where "q = of_int t / 263"
  define a where "a = \<bar>q\<bar>"
  from False have q0: "q \<noteq> 0" by (simp add: q_def)
  from False have "1 \<le> \<bar>t\<bar>" by simp
  then have t1: "(1::rat) \<le> \<bar>of_int t\<bar>" by (metis of_int_abs of_int_1_le_iff)
  then have alo: "1 / 263 \<le> a" by (simp add: a_def q_def divide_right_mono)
  then have apos: "0 < a" by linarith
  have "(of_int \<bar>t\<bar> :: rat) < 2 ^ 1000" using assms
    by (metis of_int_less_iff of_int_numeral of_int_power)
  then have "\<bar>of_int t :: rat\<bar> < 2 ^ 1000" by simp
  moreover have "a \<le> \<bar>of_int t\<bar>" using t1 by (simp add: a_def q_def field_simps)
  ultimately have ahi: "a < 2 ^ 1000" by linarith
  define e where "e = binary_exponent a"
  from binary_exponent_bounds[OF apos] have lo: "2 powi e \<le> a" and hi: "a < 2 powi (e + 1)"
    by (simp_all add: e_def)
  have "(2::rat) powi (- 1022) \<le> 1 / 263"
  proof -
    have "(2::rat) powi (- 1022) \<le> 2 powi (- 9)" by (rule power_int_increasing) simp_all
    also have "\<dots> \<le> 1 / 263" by (simp add: power_int_minus)
    finally show ?thesis .
  qed
  with alo hi have "(2::rat) powi (- 1022) < 2 powi (e + 1)" by linarith
  then have "- 1022 < e + 1" by (rule two_powi_less_cancel)
  then have emax: "max e (- 1022) = e" by simp
  from lo ahi have "(2::rat) powi e < 2 powi 1000" by simp
  then have e1000: "e < 1000" by (rule two_powi_less_cancel)
  define u where "u = (2::rat) powi (e - 52)"
  have upos: "0 < u" by (simp add: u_def)
  have u53: "2 ^ 53 * u = 2 powi (e + 1)"
  proof -
    have "(2::rat) powi ((e - 52) + 53) = 2 powi (e - 52) * 2 powi 53"
      by (rule power_int_add) simp
    moreover have "(e - 52) + 53 = e + 1" by simp
    ultimately have "(2::rat) powi (e + 1) = 2 powi (e - 52) * 2 powi 53" by simp
    then show ?thesis by (simp add: u_def)
  qed
  have "a / u \<le> 2 ^ 53"
  proof -
    from hi u53 have "a < 2 ^ 53 * u" by simp
    with upos show ?thesis by (simp add: field_simps)
  qed
  then have "a / u \<le> of_int (2 ^ 53)" by simp
  then have "round_half_even (a / u) \<le> 2 ^ 53" by (rule round_half_even_le)
  then have "(of_int (round_half_even (a / u)) :: rat) \<le> of_int (2 ^ 53)"
    by (simp only: of_int_le_iff)
  then have "of_int (round_half_even (a / u)) * u \<le> 2 ^ 53 * u"
    using upos by (simp add: mult_right_mono)
  also have "\<dots> = 2 powi (e + 1)" by (rule u53)
  also have "\<dots> \<le> 2 powi 1000" using e1000 by (intro power_int_increasing) simp_all
  also have "\<dots> < 2 powi 1024" by (rule power_int_strict_increasing) simp_all
  finally have "\<not> 2 powi 1024 \<le> of_int (round_half_even (a / u)) * u" by simp
  with q0 show ?thesis
    by (simp add: est_seconds_def true_div_def float_of_rat_def Let_def q_def[symmetric]
        a_def[symmetric] e_def[symmetric] emax u_def[symmetric])
qed

lemma est_seconds_2630: "est_seconds 2630 = Inr 10"
  using est_seconds_exact [of 10] by simp

lemma format_2f_10: "format_2f 10 = ''10.00''"
  by (simp add: format_2f_def round_half_even_def Let_def digit_char_def)

lemma format_commas_2630: "format_commas 2630 = ''2,630''"
  by (simp add: format_commas_def digit_char_def)

lemma inspector_block_counted:
  assumes "count_tokens gw m [stored_video s] (remote w) = (Inr t, g)"
    and "est_seconds t = Inr d"
  shows "snd (snd (inspector_block gw m s w)) =
     [(s, CountTokens m [stored_video s]),
      (s, Show StWrite (''**Total Tokens:** '' @ format_commas t)),
      (s, Show StWrite (''**Est. Processed Duration:** '' @ format_2f d @ '' seconds''))]"
  using assms by (simp add: inspector_block_def Let_def)

text \<open>
  C8. The estimated duration is the token count divided by 263, as Python's true
  division computes it: the binary64 number nearest to the exact quotient. Whenever
  the division yields a number, that number differs from the exact quotient by at most
  the fraction \<open>1 / 2 ^ 53\<close> of it; it yields a number for every count below
  \<open>2 ^ 1000\<close> in absolute value; and it is the exact quotient when the count is a
  multiple of 263 with a quotient below \<open>2 ^ 53\<close>. The inspector then displays the
  count and the estimate with two decimals. For 2630 tokens the estimate is 10 and the
  line displayed is \<^verbatim>\<open>**Est. Processed Duration:** 10.00 seconds\<close>.
\<close>

theorem estimated_duration:
  "(\<forall>d. est_seconds t = Inr d \<longrightarrow> \<bar>d - of_int t / 263\<bar> \<le> \<bar>of_int t / 263\<bar> / 2 ^ 53) \<and>
   (\<bar>t\<bar> < 2 ^ 1000 \<longrightarrow> (\<exists>d. est_seconds t = Inr d)) \<and>
   (\<bar>k\<bar> < 2 ^ 53 \<longrightarrow> est_seconds (263 * k) = Inr (of_int k)) \<and>
   est_seconds 2630 = Inr 10 \<and>
   (\<forall>d g. count_tokens gw m [stored_video s] (remote w) = (Inr t, g) \<longrightarrow>
      est_seconds t = Inr d \<longrightarrow>
      snd (snd (inspector_block gw m s w)) =
        [(s, CountTokens m [stored_video s]),
         (s, Show StWrite (''**Total Tokens:** '' @ format_commas t)),
         (s, Show StWrite (''**Est. Processed Duration:** '' @ format_2f d @ '' seconds''))]) \<and>
   (\<forall>g. count_tokens gw m [stored_video s] (remote w) = (Inr 2630, g) \<longrightarrow>
      snd (snd (inspector_block gw m s w)) =
        [(s, CountTokens m [stored_video s]),
         (s, Show StWrite ''**Total Tokens:** 2,630''),
         (s, Show StWrite ''**Est. Processed Duration:** 10.00 seconds'')])"
proof (intro conjI allI impI)
  fix d
  assume "est_seconds t = Inr d"
  then show "\<bar>d - of_int t / 263\<bar> \<le> \<bar>of_int t / 263\<bar> / 2 ^ 53" by (rule est_seconds_rel_err)
next
  assume "\<bar>t\<bar> < 2 ^ 1000"
  then show "\<exists>d. est_seconds t = Inr d" by (rule est_seconds_defined)
next
  assume "\<bar>k\<bar> < 2 ^ 53"
  then show "est_seconds (263 * k) = Inr (of_int k)" by (rule est_seconds_exact)
next
  show "est_seconds 2630 = Inr 10" by (rule est_seconds_2630)
next
  fix d g
  assume "count_tokens gw m [stored_video s] (remote w) = (Inr t, g)" and "est_seconds t = Inr d"
  then show "snd (snd (inspector_block gw m s w)) =
        [(s, CountTokens m [stored_video s]),
         (s, Show StWrite (''**Total Tokens:** '' @ format_commas t)),
         (s, Show StWrite (''**Est. Processed Duration:** '' @ format_2f d @ '' seconds''))]"
    by (rule inspector_block_counted)
next
  fix g
  assume "count_tokens gw m [stored_video s] (remote w) = (Inr 2630, g)"
  from inspector_block_counted [OF this est_seconds_2630]
  show "snd (snd (inspector_block gw m s w)) =
        [(s, CountTokens m [stored_video s]),
         (s, Show StWrite ''**Total Tokens:** 2,630''),
         (s, Show StWrite ''**Est. Processed Duration:** 10.00 seconds'')]"
    by (simp add: format_2f_10 format_commas_2630)
qed

theorem estimated_duration_witness:
  "count_tokens (scripted_gateway (Inr (file_in ''ACTIVE'')) (Inr 2630) (Inr []))
     ''gemini-1.5-flash'' [stored_video ready_session] (remote (empty_world [])) = (Inr 2630, []) \<and>
   snd (snd (inspector_block (scripted_gateway (Inr (file_in ''ACTIVE'')) (Inr 2630) (Inr []))
     ''gemini-1.5-flash'' ready_session (empty_world []))) =
     [(ready_session, CountTokens ''gemini-1.5-flash'' [Media (file_in ''ACTIVE'')]),
      (ready_session, Show StWrite ''**Total Tokens:** 2,630''),
      (ready_session, Show StWrite ''**Est. Processed Duration:** 10.00 seconds'')] \<and>
   \<bar>263 :: int\<bar> < 2 ^ 53 \<and> est_seconds (263 * 263) = Inr 263"
proof -
  let ?gw = "scripted_gateway (Inr (file_in ''ACTIVE'')) (Inr 2630) (Inr [])"
  have h: "count_tokens ?gw ''gemini-1.5-flash'' [stored_video ready_session]
      (remote (empty_world [])) = (Inr 2630, [])"
    by (simp add: scripted_gateway_def empty_world_def)
  have sv: "stored_video ready_session = Media (file_in ''ACTIVE'')"
    by (simp add: stored_video_def ready_session_def)
  note c = estimated_duration [of 2630 263 ?gw "''gemini-1.5-flash''" ready_session "empty_world []"]
  from c h have a: "snd (snd (inspector_block ?gw ''gemini-1.5-flash'' ready_session (empty_world []))) =
     [(ready_session, CountTokens ''gemini-1.5-flash'' [Media (file_in ''ACTIVE'')]),
      (ready_session, Show StWrite ''**Total Tokens:** 2,630''),
      (ready_session, Show StWrite ''**Est. Processed Duration:** 10.00 seconds'')]"
    by (simp add: sv)
  have k: "\<bar>263 :: int\<bar> < 2 ^ 53" by simp
  from c k have b: "est_seconds (263 * 263) = Inr 263" by simp
  show ?thesis by (rule conjI [OF h conjI [OF a conjI [OF k b]]])
qed

end
